theory Spec2Isabelle
  imports Complex_Main
begin

section \<open>JavaScript numbers\<close>

text \<open>
  A JavaScript Number is an IEEE-754 binary64 value. The finite values are rationals, so
  a number is modelled as \<open>NaN\<close>, one of the two infinities, or a rational. Every
  arithmetic operation computes the exact rational result and rounds it to the nearest
  binary64 value, ties to even (\<open>fl\<close>). The sign of zero is not modelled: both
  zeros are \<open>Fin 0\<close>.
\<close>

datatype number = NaN | PosInf | NegInf | Fin rat

definition pow2 :: "int \<Rightarrow> rat" where
  "pow2 k = (if 0 \<le> k then 2 ^ nat k else 1 / 2 ^ nat (- k))"

function bit_length :: "int \<Rightarrow> nat" where
  "bit_length n = (if n \<le> 0 then 0 else Suc (bit_length (n div 2)))"
  by pat_completeness auto
termination
  by (relation "measure nat") auto

declare bit_length.simps [simp del]

text \<open>\<open>ilog2 a\<close> is the binary exponent of a positive rational: \<open>2^e \<le> a < 2^(e+1)\<close>.\<close>

definition ilog2 :: "rat \<Rightarrow> int" where
  "ilog2 a = (if 1 \<le> a then int (bit_length \<lfloor>a\<rfloor>) - 1
              else - int (bit_length (\<lceil>1 / a\<rceil> - 1)))"

definition round_half_even :: "rat \<Rightarrow> int" where
  "round_half_even x =
     (let f = \<lfloor>x\<rfloor>; r = x - of_int f
      in if r < 1 / 2 then f
         else if 1 / 2 < r then f + 1
         else if even f then f else f + 1)"

text \<open>
  Rounding to binary64: 53 significant bits, the least exponent of the last place
  is \<open>-1074\<close> (subnormals), and a rounded magnitude of \<open>2^1024\<close> or more overflows.
\<close>

definition fl :: "rat \<Rightarrow> number" where
  "fl x =
     (if x = 0 then Fin 0
      else let a = \<bar>x\<bar>;
               q = max (ilog2 a - 52) (- 1074);
               y = of_int (round_half_even (a / pow2 q)) * pow2 q
           in if pow2 1024 \<le> y then (if 0 < x then PosInf else NegInf)
              else Fin (if 0 < x then y else - y))"

text \<open>The operators \<open>+\<close>, \<open>*\<close> and \<open>/\<close> on Numbers.\<close>

fun num_add :: "number \<Rightarrow> number \<Rightarrow> number" where
  "num_add NaN _ = NaN"
| "num_add _ NaN = NaN"
| "num_add PosInf NegInf = NaN"
| "num_add NegInf PosInf = NaN"
| "num_add PosInf _ = PosInf"
| "num_add NegInf _ = NegInf"
| "num_add _ PosInf = PosInf"
| "num_add _ NegInf = NegInf"
| "num_add (Fin a) (Fin b) = fl (a + b)"

fun num_neg :: "number \<Rightarrow> number" where
  "num_neg NaN = NaN"
| "num_neg PosInf = NegInf"
| "num_neg NegInf = PosInf"
| "num_neg (Fin a) = Fin (- a)"

fun num_sign :: "number \<Rightarrow> int" where
  "num_sign NaN = 0"
| "num_sign PosInf = 1"
| "num_sign NegInf = - 1"
| "num_sign (Fin a) = (if 0 < a then 1 else if a < 0 then - 1 else 0)"

fun num_mul :: "number \<Rightarrow> number \<Rightarrow> number" where
  "num_mul NaN _ = NaN"
| "num_mul _ NaN = NaN"
| "num_mul (Fin a) (Fin b) = fl (a * b)"
| "num_mul x y =
     (if num_sign x * num_sign y = 0 then NaN
      else if 0 < num_sign x * num_sign y then PosInf else NegInf)"

text \<open>Division; a zero divisor is taken as \<open>+0\<close>.\<close>

fun num_div :: "number \<Rightarrow> number \<Rightarrow> number" where
  "num_div NaN _ = NaN"
| "num_div _ NaN = NaN"
| "num_div (Fin a) (Fin b) =
     (if b = 0 then (if a = 0 then NaN else if 0 < a then PosInf else NegInf)
      else fl (a / b))"
| "num_div (Fin a) _ = Fin 0"
| "num_div x (Fin b) = (if 0 \<le> num_sign x * (if b < 0 then - 1 else 1) then PosInf else NegInf)"
| "num_div _ _ = NaN"

text \<open>\<open>Number.isFinite\<close>, and the comparisons \<open><\<close> and \<open>>\<close> (false when an operand is \<open>NaN\<close>).\<close>

fun isFinite :: "number \<Rightarrow> bool" where
  "isFinite (Fin _) = True"
| "isFinite _ = False"

fun isNaN :: "number \<Rightarrow> bool" where
  "isNaN NaN = True"
| "isNaN _ = False"

fun num_lt :: "number \<Rightarrow> number \<Rightarrow> bool" where
  "num_lt NaN _ = False"
| "num_lt _ NaN = False"
| "num_lt (Fin a) (Fin b) = (a < b)"
| "num_lt NegInf NegInf = False"
| "num_lt NegInf _ = True"
| "num_lt _ NegInf = False"
| "num_lt PosInf _ = False"
| "num_lt _ PosInf = True"

definition num_gt :: "number \<Rightarrow> number \<Rightarrow> bool" where
  "num_gt x y = num_lt y x"

section \<open>common.js\<close>

text \<open>\<open>const TAX_RATE = 13 / 600\<close>\<close>

definition TAX_RATE :: number where
  "TAX_RATE = num_div (Fin 13) (Fin 600)"

section \<open>cart.js: totals of the cart\<close>

record row =
  price :: number
  qty :: number

record totals =
  subtotal :: number
  taxes :: number
  shippingCost :: number
  total_v :: number

text \<open>
  \<open>calculateTotals(cart, shippingCost)\<close> of cart.js; \<open>reduce\<close> is a left fold
  starting from \<open>0\<close>.
\<close>

definition calculateTotals :: "row list \<Rightarrow> number \<Rightarrow> totals" where
  "calculateTotals cart shippingCost' =
     (let subtotal' = foldl (\<lambda>sum_v r. num_add sum_v (num_mul (price r) (qty r))) (Fin 0) cart;
          taxes' = num_mul subtotal' TAX_RATE;
          total' = num_add (num_add subtotal' taxes') shippingCost'
      in \<lparr>subtotal = subtotal', taxes = taxes', shippingCost = shippingCost', total_v = total'\<rparr>)"

text \<open>
  The sum of a list of Numbers as JavaScript computes it: from \<open>0\<close>, adding the
  elements from left to right, each addition rounded.
\<close>

definition num_sum :: "number list \<Rightarrow> number" where
  "num_sum xs = foldl num_add (Fin 0) xs"

definition line_total :: "row \<Rightarrow> number" where
  "line_total r = num_mul (price r) (qty r)"

section \<open>JavaScript strings\<close>

text \<open>
  A string is a list of characters; a character stands for a code unit below 256
  (ASCII and Latin-1), which covers every character the patterns of the program name.
  \<open>is_space\<close> is the white space of \<open>trim\<close>, of \<open>\s\<close> and of \<open>parseInt\<close> and
  \<open>parseFloat\<close> in that range: tab, line feed, vertical tab, form feed, carriage
  return, space and the no-break space.
\<close>

definition code :: "char \<Rightarrow> nat" where
  "code c = of_char c"

definition in_range :: "char \<Rightarrow> char \<Rightarrow> char \<Rightarrow> bool" where
  "in_range lo hi c = (code lo \<le> code c \<and> code c \<le> code hi)"

definition is_digit :: "char \<Rightarrow> bool" where
  "is_digit c = in_range CHR ''0'' CHR ''9'' c"

definition is_lower :: "char \<Rightarrow> bool" where
  "is_lower c = in_range CHR ''a'' CHR ''z'' c"

definition is_upper :: "char \<Rightarrow> bool" where
  "is_upper c = in_range CHR ''A'' CHR ''Z'' c"

definition is_alpha :: "char \<Rightarrow> bool" where
  "is_alpha c = (is_lower c \<or> is_upper c)"

definition is_space :: "char \<Rightarrow> bool" where
  "is_space c = (code c \<in> {9, 10, 11, 12, 13, 32, 160})"

definition digit_val :: "char \<Rightarrow> nat" where
  "digit_val c = code c - 48"

text \<open>\<open>String.prototype.trim\<close>, and the test \<open>s.trim() === ''\<close>.\<close>

definition trim_start :: "string \<Rightarrow> string" where
  "trim_start s = dropWhile is_space s"

definition trim :: "string \<Rightarrow> string" where
  "trim s = rev (dropWhile is_space (rev (dropWhile is_space s)))"

text \<open>\<open>toUpperCase\<close> on the ASCII letters; other characters are left as they are.\<close>

definition toUpperCase :: "string \<Rightarrow> string" where
  "toUpperCase s = map (\<lambda>c. if is_lower c then char_of (code c - 32) else c) s"

text \<open>\<open>s.split(sep)\<close> for a separator of one character.\<close>

fun split :: "char \<Rightarrow> string \<Rightarrow> string list" where
  "split sep [] = [[]]"
| "split sep (c # cs) =
     (if c = sep then [] # split sep cs
      else (case split sep cs of [] \<Rightarrow> [[c]] | p # ps \<Rightarrow> (c # p) # ps))"

text \<open>The value of a string of decimal digits.\<close>

definition dec_value :: "string \<Rightarrow> nat" where
  "dec_value ds = foldl (\<lambda>n c. 10 * n + digit_val c) 0 ds"

section \<open>Regular expressions\<close>

text \<open>
  The patterns of the program are all anchored at both ends (\<open>^...$\<close>, without the
  multiline flag), so \<open>pattern.test(s)\<close> holds exactly when the whole of \<open>s\<close> is in the
  language of the pattern. Patterns are terms of \<open>rx\<close>, matched by derivatives.
\<close>

datatype rx =
    Fail
  | EmptyStr
  | Chars "char \<Rightarrow> bool"
  | Alt rx rx
  | Then rx rx
  | Star rx

fun nullable :: "rx \<Rightarrow> bool" where
  "nullable Fail = False"
| "nullable EmptyStr = True"
| "nullable (Chars p) = False"
| "nullable (Alt r s) = (nullable r \<or> nullable s)"
| "nullable (Then r s) = (nullable r \<and> nullable s)"
| "nullable (Star r) = True"

fun deriv :: "char \<Rightarrow> rx \<Rightarrow> rx" where
  "deriv c Fail = Fail"
| "deriv c EmptyStr = Fail"
| "deriv c (Chars p) = (if p c then EmptyStr else Fail)"
| "deriv c (Alt r s) = Alt (deriv c r) (deriv c s)"
| "deriv c (Then r s) =
     (if nullable r then Alt (Then (deriv c r) s) (deriv c s) else Then (deriv c r) s)"
| "deriv c (Star r) = Then (deriv c r) (Star r)"

fun rx_test :: "rx \<Rightarrow> string \<Rightarrow> bool" where
  "rx_test r [] = nullable r"
| "rx_test r (c # cs) = rx_test (deriv c r) cs"

text \<open>The character \<open>c\<close>, \<open>r?\<close>, \<open>r+\<close>, \<open>r{n}\<close>, \<open>r{m,n}\<close> and \<open>r{m,}\<close>.\<close>

definition Lit :: "char \<Rightarrow> rx" where
  "Lit c = Chars (\<lambda>x. x = c)"

definition Opt :: "rx \<Rightarrow> rx" where
  "Opt r = Alt r EmptyStr"

definition OneOrMore :: "rx \<Rightarrow> rx" where
  "OneOrMore r = Then r (Star r)"

fun Exactly :: "nat \<Rightarrow> rx \<Rightarrow> rx" where
  "Exactly 0 r = EmptyStr"
| "Exactly (Suc n) r = Then r (Exactly n r)"

fun UpTo :: "nat \<Rightarrow> rx \<Rightarrow> rx" where
  "UpTo 0 r = EmptyStr"
| "UpTo (Suc n) r = Opt (Then r (UpTo n r))"

definition Between :: "nat \<Rightarrow> nat \<Rightarrow> rx \<Rightarrow> rx" where
  "Between m n r = Then (Exactly m r) (UpTo (n - m) r)"

definition AtLeast :: "nat \<Rightarrow> rx \<Rightarrow> rx" where
  "AtLeast m r = Then (Exactly m r) (Star r)"

text \<open>The language of a pattern, for the proofs.\<close>

definition cat :: "string set \<Rightarrow> string set \<Rightarrow> string set" where
  "cat A B = {u @ v | u v. u \<in> A \<and> v \<in> B}"

inductive_set iter :: "string set \<Rightarrow> string set" for A :: "string set" where
  iter_nil: "[] \<in> iter A"
| iter_app: "u \<in> A \<Longrightarrow> v \<in> iter A \<Longrightarrow> u @ v \<in> iter A"

fun lang :: "rx \<Rightarrow> string set" where
  "lang Fail = {}"
| "lang EmptyStr = {[]}"
| "lang (Chars p) = {[c] | c. p c}"
| "lang (Alt r s) = lang r \<union> lang s"
| "lang (Then r s) = cat (lang r) (lang s)"
| "lang (Star r) = iter (lang r)"

section \<open>Strings to numbers\<close>

text \<open>
  \<open>scan_decimal\<close> reads the longest prefix of a string that is a \<open>StrDecimalLiteral\<close>
  of ECMAScript: an optional sign, then \<open>Infinity\<close> or decimal digits with an optional
  fraction and an optional exponent. It returns the Number read and the rest of the
  string, or \<open>None\<close> when no prefix is a literal.
\<close>

definition pow10 :: "int \<Rightarrow> rat" where
  "pow10 k = (if 0 \<le> k then 10 ^ nat k else 1 / 10 ^ nat (- k))"

definition starts_with :: "string \<Rightarrow> string \<Rightarrow> bool" where
  "starts_with p s = (take (length p) s = p)"

definition take_sign :: "string \<Rightarrow> bool \<times> string" where
  "take_sign s =
     (case s of
        [] \<Rightarrow> (False, [])
      | c # cs \<Rightarrow> if c = CHR ''-'' then (True, cs)
                  else if c = CHR ''+'' then (False, cs)
                  else (False, s))"

text \<open>The exponent part \<open>e\<close> or \<open>E\<close>, an optional sign and at least one digit, if there is one.\<close>

definition scan_exponent :: "string \<Rightarrow> int \<times> string" where
  "scan_exponent s =
     (case s of
        [] \<Rightarrow> (0, s)
      | c # cs \<Rightarrow>
          if c = CHR ''e'' \<or> c = CHR ''E'' then
            (let (neg, ds) = take_sign cs;
                 es = takeWhile is_digit ds
             in if es = [] then (0, s)
                else ((if neg then - int (dec_value es) else int (dec_value es)),
                      dropWhile is_digit ds))
          else (0, s))"

definition scan_unsigned :: "string \<Rightarrow> (rat \<times> string) option" where
  "scan_unsigned s =
     (let ip = takeWhile is_digit s;
          r1 = dropWhile is_digit s;
          dot = (r1 \<noteq> [] \<and> hd r1 = CHR ''.'');
          fp = (if dot then takeWhile is_digit (tl r1) else []);
          r2 = (if dot then dropWhile is_digit (tl r1) else r1)
      in if ip = [] \<and> fp = [] then None
         else let (ex, r3) = scan_exponent r2
              in Some ((of_nat (dec_value ip) + of_nat (dec_value fp) / 10 ^ length fp) * pow10 ex,
                       r3))"

definition scan_decimal :: "string \<Rightarrow> (number \<times> string) option" where
  "scan_decimal s =
     (let (neg, u) = take_sign s
      in if starts_with ''Infinity'' u then Some ((if neg then NegInf else PosInf), drop 8 u)
         else (case scan_unsigned u of
                 None \<Rightarrow> None
               | Some (v, r) \<Rightarrow> Some (fl (if neg then - v else v), r)))"

text \<open>\<open>parseFloat(s)\<close> of a string: leading white space is skipped, the rest is ignored.\<close>

definition parseFloat :: "string \<Rightarrow> number" where
  "parseFloat s = (case scan_decimal (trim_start s) of None \<Rightarrow> NaN | Some (v, r) \<Rightarrow> v)"

text \<open>\<open>parseInt(s, 10)\<close> of a string.\<close>

definition parseInt10 :: "string \<Rightarrow> number" where
  "parseInt10 s =
     (let (neg, u) = take_sign (trim_start s);
          z = takeWhile is_digit u
      in if z = [] then NaN
         else fl (if neg then - of_nat (dec_value z) else of_nat (dec_value z)))"

text \<open>
  \<open>Number(s)\<close> of a string: white space is trimmed at both ends, the empty string is
  \<open>0\<close>, and the whole of the rest must be a decimal literal or a hexadecimal, octal or
  binary integer literal.
\<close>

definition radix_digit :: "char \<Rightarrow> nat option" where
  "radix_digit c =
     (if is_digit c then Some (digit_val c)
      else if in_range CHR ''a'' CHR ''f'' c then Some (code c - 87)
      else if in_range CHR ''A'' CHR ''F'' c then Some (code c - 55)
      else None)"

definition radix_literal :: "nat \<Rightarrow> string \<Rightarrow> number" where
  "radix_literal b ds =
     (if ds \<noteq> [] \<and> (\<forall>c \<in> set ds. case radix_digit c of None \<Rightarrow> False | Some d \<Rightarrow> d < b)
      then fl (of_nat (foldl (\<lambda>n c. b * n + the (radix_digit c)) 0 ds))
      else NaN)"

definition Number_of_string :: "string \<Rightarrow> number" where
  "Number_of_string s =
     (let t = trim s
      in if t = [] then Fin 0
         else if starts_with ''0x'' t \<or> starts_with ''0X'' t then radix_literal 16 (drop 2 t)
         else if starts_with ''0o'' t \<or> starts_with ''0O'' t then radix_literal 8 (drop 2 t)
         else if starts_with ''0b'' t \<or> starts_with ''0B'' t then radix_literal 2 (drop 2 t)
         else (case scan_decimal t of
                 None \<Rightarrow> NaN
               | Some (v, r) \<Rightarrow> if r = [] then v else NaN))"

text \<open>\<open>Number(v)\<close> of a string or \<open>null\<close>; \<open>Number(null)\<close> is \<open>0\<close>.\<close>

definition Number_of :: "string option \<Rightarrow> number" where
  "Number_of v = (case v of None \<Rightarrow> Fin 0 | Some s \<Rightarrow> Number_of_string s)"

section \<open>common.js: currency text and storage\<close>

text \<open>
  \<open>parseCurrency(text)\<close>; \<open>None\<close> is \<open>null\<close> or \<open>undefined\<close>. \<open>!text\<close> holds of these
  and of the empty string.
\<close>

definition parseCurrency :: "string option \<Rightarrow> number" where
  "parseCurrency text =
     (case text of
        None \<Rightarrow> Fin 0
      | Some t \<Rightarrow>
          if t = [] then Fin 0
          else let cleaned = filter (\<lambda>c. is_digit c \<or> c = CHR ''.'') t;
                   number' = Number_of_string cleaned
               in if isFinite number' then number' else Fin 0)"

text \<open>
  The local storage is a map from keys to strings. \<open>JSON.stringify\<close> and \<open>JSON.parse\<close>
  belong to the platform and are parameters; \<open>JSON.parse\<close> returns \<open>None\<close> where it
  throws a \<open>SyntaxError\<close>.
\<close>

type_synonym storage = "string \<rightharpoonup> string"

definition saveToStorage :: "('v \<Rightarrow> string) \<Rightarrow> storage \<Rightarrow> string \<Rightarrow> 'v \<Rightarrow> storage" where
  "saveToStorage JSON_stringify store key data = store(key \<mapsto> JSON_stringify data)"

definition loadFromStorage :: "(string \<Rightarrow> 'v option) \<Rightarrow> storage \<Rightarrow> string \<Rightarrow> 'v \<Rightarrow> 'v" where
  "loadFromStorage JSON_parse store key fallback =
     (case store key of
        None \<Rightarrow> fallback
      | Some raw \<Rightarrow>
          if raw = [] then fallback
          else (case JSON_parse raw of None \<Rightarrow> fallback | Some v \<Rightarrow> v))"

section \<open>validation.js: patterns and messages\<close>

text \<open>\<open>\d\<close>, \<open>\s\<close> and the character classes of \<open>ValidationPatterns\<close>.\<close>

definition one_of :: "string \<Rightarrow> char \<Rightarrow> bool" where
  "one_of cs c = (c \<in> set cs)"

definition rx_digit :: rx where
  "rx_digit = Chars is_digit"

definition rx_space :: rx where
  "rx_space = Chars is_space"

text \<open>\<open>/^[a-zA-Z0-9._%+-]+@[a-zA-Z0-9.-]+\.[a-zA-Z]{2,}$/\<close>\<close>

definition pattern_email :: rx where
  "pattern_email =
     Then (OneOrMore (Chars (\<lambda>c. is_alpha c \<or> is_digit c \<or> one_of ''._%+-'' c)))
    (Then (Lit CHR ''@'')
    (Then (OneOrMore (Chars (\<lambda>c. is_alpha c \<or> is_digit c \<or> one_of ''.-'' c)))
    (Then (Lit CHR ''.'')
          (AtLeast 2 (Chars is_alpha)))))"

text \<open>
  \<open>postalCodes\<close>: NZ and AU \<open>/^\d{4}$/\<close>, US \<open>/^\d{5}(-\d{4})?$/\<close>. The
  properties of the object as a list of pairs.
\<close>

definition pattern_postalCodes :: "(string \<times> rx) list" where
  "pattern_postalCodes =
     [(''NZ'', Exactly 4 rx_digit),
      (''AU'', Exactly 4 rx_digit),
      (''US'', Then (Exactly 5 rx_digit) (Opt (Then (Lit CHR ''-'') (Exactly 4 rx_digit))))]"

text \<open>
  \<open>phonePatterns\<close>: NZ \<open>/^(\+?64|0)[2-9]\d{7,9}$/\<close>, AU \<open>/^(\+?61|0)[2-9]\d{8}$/\<close>,
  US \<open>/^(\+?1)?[2-9]\d{2}[2-9]\d{6}$/\<close>.
\<close>

definition rx_2to9 :: rx where
  "rx_2to9 = Chars (in_range CHR ''2'' CHR ''9'')"

definition pattern_phonePatterns :: "(string \<times> rx) list" where
  "pattern_phonePatterns =
     [(''NZ'', Then (Alt (Then (Opt (Lit CHR ''+'')) (Then (Lit CHR ''6'') (Lit CHR ''4''))) (Lit CHR ''0''))
              (Then rx_2to9 (Between 7 9 rx_digit))),
      (''AU'', Then (Alt (Then (Opt (Lit CHR ''+'')) (Then (Lit CHR ''6'') (Lit CHR ''1''))) (Lit CHR ''0''))
              (Then rx_2to9 (Exactly 8 rx_digit))),
      (''US'', Then (Opt (Then (Opt (Lit CHR ''+'')) (Lit CHR ''1'')))
              (Then rx_2to9 (Then (Exactly 2 rx_digit) (Then rx_2to9 (Exactly 6 rx_digit)))))]"

text \<open>The generic phone pattern \<open>/^[\d\s\-\+\(\)]{8,20}$/\<close>.\<close>

definition pattern_phone :: rx where
  "pattern_phone = Between 8 20 (Chars (\<lambda>c. is_digit c \<or> is_space c \<or> one_of ''-+()'' c))"

text \<open>
  The name pattern \<open>/^[A-Za-z\<dots>\s\-']{2,50}$/\<close>, whose class also has the range from
  \<open>U+00C0\<close> to \<open>U+00FF\<close> of accented letters.
\<close>

definition pattern_name :: rx where
  "pattern_name =
     Between 2 50 (Chars (\<lambda>c. is_alpha c \<or> in_range (CHR 0xC0) (CHR 0xFF) c \<or> is_space c
                                \<or> c = CHR ''-'' \<or> c = CHR 0x27))"

text \<open>\<open>cardExpiry\<close>: \<open>/^(0[1-9]|1[0-2])\s?\/\s?\d{2}$/\<close>\<close>

definition pattern_cardExpiry :: rx where
  "pattern_cardExpiry =
     Then (Alt (Then (Lit CHR ''0'') (Chars (in_range CHR ''1'' CHR ''9'')))
               (Then (Lit CHR ''1'') (Chars (in_range CHR ''0'' CHR ''2''))))
    (Then (Opt rx_space)
    (Then (Lit CHR ''/'')
    (Then (Opt rx_space)
          (Exactly 2 rx_digit))))"

text \<open>\<open>ErrorMessages\<close>\<close>

definition msg_required :: string where
  "msg_required = ''This field is required''"

definition msg_firstName :: string where
  "msg_firstName = ''Please enter a valid first name (2-50 letters)''"

definition msg_lastName :: string where
  "msg_lastName = ''Please enter a valid last name (2-50 letters)''"

definition msg_email :: string where
  "msg_email = ''Please enter a valid email address (e.g., name@example.com)''"

definition msg_phone :: "(string \<times> string) list" where
  "msg_phone =
     [(''NZ'', ''Please enter a valid NZ phone number (e.g., 021 123 4567 or +64 21 123 4567)''),
      (''AU'', ''Please enter a valid AU phone number''),
      (''US'', ''Please enter a valid US phone number''),
      (''default'', ''Please enter a valid phone number'')]"

definition msg_phone_default :: string where
  "msg_phone_default = ''Please enter a valid phone number''"

definition msg_postalCode :: "(string \<times> string) list" where
  "msg_postalCode =
     [(''NZ'', ''Please enter a valid NZ postal code (4 digits, e.g., 1010)''),
      (''AU'', ''Please enter a valid AU postal code (4 digits)''),
      (''US'', ''Please enter a valid US ZIP code (e.g., 12345 or 12345-6789)''),
      (''default'', ''Please enter a valid postal code'')]"

definition msg_postalCode_default :: string where
  "msg_postalCode_default = ''Please enter a valid postal code''"

definition msg_address :: string where
  "msg_address = ''Please enter a valid address (minimum 5 characters)''"

definition msg_city :: string where
  "msg_city = ''Please enter a valid city name''"

definition msg_cardNumber :: string where
  "msg_cardNumber = ''Please enter a valid card number (13-19 digits)''"

definition msg_cardExpiry :: string where
  "msg_cardExpiry = ''Please enter a valid expiry date (MM/YY)''"

definition msg_cardExpiryPast :: string where
  "msg_cardExpiryPast = ''Card has expired. Please use a valid card''"

definition msg_cvv :: string where
  "msg_cvv = ''Please enter a valid CVV (3-4 digits on back of card)''"

definition msg_cardHolder :: string where
  "msg_cardHolder = ''Please enter the cardholder name as shown on card''"

definition msg_currency :: string where
  "msg_currency = ''Please enter a valid positive amount''"

definition msg_quantity :: string where
  "msg_quantity = ''Please enter a valid quantity (1 or more)''"

definition msg_quantityMax :: string where
  "msg_quantityMax = ''Maximum quantity is 99''"

section \<open>validation.js: the validators\<close>

record ValidationResult =
  valid :: bool
  message :: string

text \<open>
  The argument of a validator is a string, or \<open>None\<close> for \<open>null\<close> and \<open>undefined\<close>.
  \<open>blank v\<close> is the guard \<open>!v || v.trim() === ''\<close>.
\<close>

definition blank :: "string option \<Rightarrow> bool" where
  "blank v = (case v of None \<Rightarrow> True | Some s \<Rightarrow> s = [] \<or> trim s = [])"

definition required :: ValidationResult where
  "required = \<lparr>valid = False, message = msg_required\<rparr>"

definition stripNonDigits :: "string \<Rightarrow> string" where
  "stripNonDigits value' = filter is_digit value'"

definition validateEmail :: "string option \<Rightarrow> ValidationResult" where
  "validateEmail email =
     (if blank email then required
      else let isValid = rx_test pattern_email (trim (the email))
           in \<lparr>valid = isValid, message = (if isValid then [] else msg_email)\<rparr>)"

text \<open>
  \<open>validateName(name, fieldType)\<close>: the callers pass \<open>firstName\<close>, \<open>lastName\<close> or
  \<open>cardHolder\<close> as the field type, each with a message of its own.
\<close>

datatype fieldType = FirstName | LastName | CardHolder

fun msg_of_fieldType :: "fieldType \<Rightarrow> string" where
  "msg_of_fieldType FirstName = msg_firstName"
| "msg_of_fieldType LastName = msg_lastName"
| "msg_of_fieldType CardHolder = msg_cardHolder"

definition validateName :: "string option \<Rightarrow> fieldType \<Rightarrow> ValidationResult" where
  "validateName name ft =
     (if blank name then required
      else let isValid = rx_test pattern_name (trim (the name))
           in \<lparr>valid = isValid, message = (if isValid then [] else msg_of_fieldType ft)\<rparr>)"

text \<open>
  \<open>obj[key]\<close> of an object literal: an own property, a property inherited from
  \<open>Object.prototype\<close> (a function, or for \<open>__proto__\<close> the prototype itself: truthy, and
  without a method \<open>test\<close>), or \<open>undefined\<close>.
\<close>

definition Object_prototype_names :: "string list" where
  "Object_prototype_names =
     [''constructor'', ''hasOwnProperty'', ''isPrototypeOf'', ''propertyIsEnumerable'',
      ''toLocaleString'', ''toString'', ''valueOf'', ''__proto__'', ''__defineGetter__'',
      ''__defineSetter__'', ''__lookupGetter__'', ''__lookupSetter__'']"

datatype 'a lookup = Own 'a | Inherited | Undefined

definition get_property :: "(string \<times> 'a) list \<Rightarrow> string \<Rightarrow> 'a lookup" where
  "get_property obj key =
     (case map_of obj key of
        Some v \<Rightarrow> Own v
      | None \<Rightarrow> if key \<in> set Object_prototype_names then Inherited else Undefined)"

datatype error = TypeError

text \<open>
  \<open>validatePhone\<close>: \<open>phonePatterns[country] || phone\<close> is the generic pattern when the
  country has no pattern; for a country that names a member of \<open>Object.prototype\<close> it is
  that member, and \<open>pattern.test\<close> raises a \<open>TypeError\<close>.
\<close>

definition validatePhone :: "string option \<Rightarrow> string \<Rightarrow> error + ValidationResult" where
  "validatePhone phone country =
     (if blank phone then Inr required
      else let cleanPhone = filter (\<lambda>c. \<not> (is_space c \<or> one_of ''-()'' c)) (the phone)
           in (case (case get_property pattern_phonePatterns country of
                       Own r \<Rightarrow> Some r | Undefined \<Rightarrow> Some pattern_phone | Inherited \<Rightarrow> None) of
                 None \<Rightarrow> Inl TypeError
               | Some pattern \<Rightarrow>
                   let isValid = rx_test pattern cleanPhone
                   in Inr \<lparr>valid = isValid,
                           message = (if isValid then []
                                      else (case map_of msg_phone country of
                                              None \<Rightarrow> msg_phone_default | Some m \<Rightarrow> m))\<rparr>))"

text \<open>
  \<open>validatePostalCode\<close>: a country without a pattern is valid once the code is not
  blank; a country that names a member of \<open>Object.prototype\<close> raises a \<open>TypeError\<close> at
  \<open>pattern.test\<close>.
\<close>

definition validatePostalCode :: "string option \<Rightarrow> string \<Rightarrow> error + ValidationResult" where
  "validatePostalCode postalCode country =
     (if blank postalCode then Inr required
      else let cleanCode = toUpperCase (trim (the postalCode))
           in (case get_property pattern_postalCodes country of
                 Undefined \<Rightarrow> Inr \<lparr>valid = True, message = []\<rparr>
               | Inherited \<Rightarrow> Inl TypeError
               | Own pattern \<Rightarrow>
                   let isValid = rx_test pattern cleanCode
                   in Inr \<lparr>valid = isValid,
                           message = (if isValid then []
                                      else (case map_of msg_postalCode country of
                                              None \<Rightarrow> msg_postalCode_default | Some m \<Rightarrow> m))\<rparr>))"

definition validateAddress :: "string option \<Rightarrow> ValidationResult" where
  "validateAddress address =
     (if blank address then required
      else let isValid = (5 \<le> length (trim (the address)))
           in \<lparr>valid = isValid, message = (if isValid then [] else msg_address)\<rparr>)"

definition validateCity :: "string option \<Rightarrow> ValidationResult" where
  "validateCity city =
     (if blank city then required
      else let isValid = rx_test pattern_name (trim (the city))
           in \<lparr>valid = isValid, message = (if isValid then [] else msg_city)\<rparr>)"

text \<open>
  The loop of \<open>validateCardNumber\<close>: \<open>i\<close> runs from \<open>digits.length - 1\<close> down to
  \<open>0\<close>; the first argument here is \<open>i + 1\<close>. \<open>parseInt(digits[i], 10)\<close> of a digit is
  its value.
\<close>

fun luhn_loop :: "nat \<Rightarrow> string \<Rightarrow> nat \<Rightarrow> bool \<Rightarrow> nat" where
  "luhn_loop 0 digits sum_v isEven = sum_v"
| "luhn_loop (Suc i) digits sum_v isEven =
     (let digit = digit_val (digits ! i);
          digit = (if isEven then (if 9 < digit * 2 then digit * 2 - 9 else digit * 2) else digit)
      in luhn_loop i digits (sum_v + digit) (\<not> isEven))"

definition validateCardNumber :: "string option \<Rightarrow> ValidationResult" where
  "validateCardNumber cardNumber =
     (if blank cardNumber then required
      else let digits = stripNonDigits (the cardNumber)
           in if length digits < 13 \<or> 19 < length digits
              then \<lparr>valid = False, message = msg_cardNumber\<rparr>
              else let sum_v = luhn_loop (length digits) digits 0 False;
                       isValid = (sum_v mod 10 = 0)
                   in \<lparr>valid = isValid, message = (if isValid then [] else msg_cardNumber)\<rparr>)"

text \<open>
  \<open>validateCardExpiry\<close> reads the clock; \<open>fullYear\<close> and \<open>month0\<close> are
  \<open>now.getFullYear()\<close> and \<open>now.getMonth()\<close> (January is \<open>0\<close>). Where
  \<open>split\<close> gives one part only, \<open>parts[1]\<close> is \<open>undefined\<close>, which the concatenation
  with \<open>'20'\<close> turns into text.
\<close>

record clock =
  fullYear :: int
  month0 :: nat

definition num_eq :: "number \<Rightarrow> number \<Rightarrow> bool" where
  "num_eq x y = (x \<noteq> NaN \<and> x = y)"

definition validateCardExpiry :: "clock \<Rightarrow> string option \<Rightarrow> ValidationResult" where
  "validateCardExpiry now expiry =
     (if blank expiry then required
      else if \<not> rx_test pattern_cardExpiry (the expiry)
      then \<lparr>valid = False, message = msg_cardExpiry\<rparr>
      else let parts = split CHR ''/'' (filter (\<lambda>c. \<not> is_space c) (the expiry));
               month = parseInt10 (parts ! 0);
               year = parseInt10 (''20'' @ (if 1 < length parts then parts ! 1 else ''undefined''));
               currentYear = Fin (of_int (fullYear now));
               currentMonth = num_add (Fin (of_nat (month0 now))) (Fin 1)
           in if num_lt year currentYear \<or> (num_eq year currentYear \<and> num_lt month currentMonth)
              then \<lparr>valid = False, message = msg_cardExpiryPast\<rparr>
              else if num_gt year (num_add currentYear (Fin 10))
              then \<lparr>valid = False, message = msg_cardExpiry\<rparr>
              else \<lparr>valid = True, message = []\<rparr>)"

text \<open>
  \<open>validateCVV(cvv, cardType)\<close>: \<open>expectedLength\<close> is computed and not used. The digits
  are tested against \<open>/^\d+$/\<close>.
\<close>

definition validateCVV :: "string option \<Rightarrow> string \<Rightarrow> ValidationResult" where
  "validateCVV cvv cardType =
     (if blank cvv then required
      else let digits = stripNonDigits (the cvv);
               expectedLength = (if cardType = ''amex'' then 4 else 3 :: nat);
               isValid = (3 \<le> length digits \<and> length digits \<le> 4 \<and> rx_test (OneOrMore rx_digit) digits)
           in \<lparr>valid = isValid, message = (if isValid then [] else msg_cvv)\<rparr>)"

text \<open>
  \<open>validateCurrency\<close> and \<open>validateQuantity\<close> guard with
  \<open>amount === '' || amount === null || amount === undefined\<close>.
\<close>

definition validateCurrency :: "string option \<Rightarrow> ValidationResult" where
  "validateCurrency amount =
     (if amount = Some [] \<or> amount = None then required
      else let value' = parseFloat (the amount)
           in if isNaN value' \<or> num_lt value' (Fin 0)
              then \<lparr>valid = False, message = msg_currency\<rparr>
              else \<lparr>valid = True, message = []\<rparr>)"

definition validateQuantity :: "string option \<Rightarrow> ValidationResult" where
  "validateQuantity quantity =
     (if quantity = Some [] \<or> quantity = None then required
      else let value' = parseInt10 (the quantity)
           in if isNaN value' \<or> num_lt value' (Fin 1)
              then \<lparr>valid = False, message = msg_quantity\<rparr>
              else if num_gt value' (Fin 99)
              then \<lparr>valid = False, message = msg_quantityMax\<rparr>
              else \<lparr>valid = True, message = []\<rparr>)"

section \<open>shipping.js\<close>

text \<open>
  The page is the list of its elements in document order, each with its \<open>id\<close>, its
  kind (a radio button, a checkbox, another \<open>input\<close>, or an element that is not an
  \<open>input\<close>), its \<open>name\<close>, its form owner (\<open>None\<close> when it has none), its \<open>checked\<close>
  and \<open>disabled\<close> state, its \<open>data-ship-cost\<close> attribute (\<open>None\<close> when absent) and
  its text content. The style classes are not modelled, nor is the text that
  \<open>renderTotals\<close> writes into the summary, which the script does not read again.
\<close>

datatype kind = Radio | Checkbox | OtherInput | NotInput

record element =
  el_id :: string
  el_kind :: kind
  el_name :: string
  form_owner :: "string option"
  checked :: bool
  disabled :: bool
  data_ship_cost :: "string option"
  textContent :: string

type_synonym document = "element list"

definition getElementById :: "string \<Rightarrow> document \<Rightarrow> element option" where
  "getElementById i doc = find (\<lambda>e. el_id e = i) doc"

fun update_first :: "(element \<Rightarrow> bool) \<Rightarrow> (element \<Rightarrow> element) \<Rightarrow> document \<Rightarrow> document" where
  "update_first p f [] = []"
| "update_first p f (e # es) = (if p e then f e # es else e # update_first p f es)"

text \<open>
  \<open>el.checked = true\<close> for the element with the given id. Checking a radio button
  unchecks the other radio buttons of its group: the radio buttons of the same name, not
  empty, and of the same form owner.
\<close>

definition same_group :: "element \<Rightarrow> element \<Rightarrow> bool" where
  "same_group t e =
     (el_kind t = Radio \<and> el_kind e = Radio \<and> el_name t \<noteq> [] \<and> el_name e = el_name t
      \<and> form_owner e = form_owner t)"

definition set_checked :: "string \<Rightarrow> document \<Rightarrow> document" where
  "set_checked i doc =
     (case getElementById i doc of
        None \<Rightarrow> doc
      | Some t \<Rightarrow>
          update_first (\<lambda>e. el_id e = i) (\<lambda>e. e\<lparr>checked := True\<rparr>)
            (map (\<lambda>e. if same_group t e then e\<lparr>checked := False\<rparr> else e) doc))"

definition set_disabled :: "string \<Rightarrow> bool \<Rightarrow> document \<Rightarrow> document" where
  "set_disabled i b doc = update_first (\<lambda>e. el_id e = i) (\<lambda>e. e\<lparr>disabled := b\<rparr>) doc"

text \<open>
  \<open>document.querySelector("input[name='shippingMethod']:checked")\<close>: the first radio
  button or checkbox of that name that is checked.
\<close>

definition matches_checked :: "element \<Rightarrow> bool" where
  "matches_checked e =
     ((el_kind e = Radio \<or> el_kind e = Checkbox) \<and> el_name e = ''shippingMethod'' \<and> checked e)"

definition selected_shippingMethod :: "document \<Rightarrow> element option" where
  "selected_shippingMethod doc = find matches_checked doc"

definition getSelectedShippingCost :: "document \<Rightarrow> number" where
  "getSelectedShippingCost doc =
     (case selected_shippingMethod doc of
        None \<Rightarrow> Fin 0
      | Some selected \<Rightarrow>
          let raw = data_ship_cost selected;
              cost = Number_of raw
          in if isFinite cost then cost else Fin 0)"

text \<open>\<open>calculateTotals(shippingCost)\<close> of shipping.js, with the subtotal of the page.\<close>

definition ship_calculateTotals :: "number \<Rightarrow> number \<Rightarrow> totals" where
  "ship_calculateTotals subtotal' shippingCost' =
     (let taxes' = num_mul subtotal' TAX_RATE;
          total' = num_add (num_add subtotal' taxes') shippingCost'
      in \<lparr>subtotal = subtotal', taxes = taxes', shippingCost = shippingCost', total_v = total'\<rparr>)"

definition enforceFreeShippingRule :: "number \<Rightarrow> document \<Rightarrow> document" where
  "enforceFreeShippingRule subtotal' doc =
     (let qualifies = num_gt subtotal' (Fin 600)
      in if qualifies then set_disabled ''shipNext'' True (set_checked ''shipFree'' doc)
         else set_disabled ''shipNext'' False doc)"

definition STORAGE_KEYS_totals :: string where
  "STORAGE_KEYS_totals = ''cpa_totals''"

text \<open>\<open>recompute\<close> returns the page, the totals it renders and the storage.\<close>

definition recompute ::
  "(totals \<Rightarrow> string) \<Rightarrow> number \<Rightarrow> document \<Rightarrow> storage \<Rightarrow> document \<times> totals \<times> storage" where
  "recompute JSON_stringify subtotal' doc store =
     (let doc' = enforceFreeShippingRule subtotal' doc;
          shippingCost' = getSelectedShippingCost doc';
          totals' = ship_calculateTotals subtotal' shippingCost'
      in (doc', totals', saveToStorage JSON_stringify store STORAGE_KEYS_totals totals'))"

text \<open>
  The subtotal of the page. A value read from the storage is a JSON value;
  \<open>storedTotals && Number.isFinite(storedTotals.subtotal)\<close> holds of an object whose
  \<open>subtotal\<close> is a finite Number, and of nothing else. \<open>x || 600\<close> is \<open>600\<close> when
  \<open>x\<close> is \<open>0\<close> or \<open>NaN\<close>.
\<close>

datatype json =
    JNull
  | JBool bool
  | JNum number
  | JStr string
  | JArr "json list"
  | JObj "(string \<times> json) list"

definition fallbackSubtotal :: "string option \<Rightarrow> number" where
  "fallbackSubtotal content =
     (let v = parseCurrency content in if v = Fin 0 \<or> v = NaN then Fin 600 else v)"

definition page_subtotal :: "json \<Rightarrow> string option \<Rightarrow> number" where
  "page_subtotal storedTotals content =
     (case storedTotals of
        JObj props \<Rightarrow>
          (case map_of props ''subtotal'' of
             Some (JNum x) \<Rightarrow> if isFinite x then x else fallbackSubtotal content
           | _ \<Rightarrow> fallbackSubtotal content)
      | _ \<Rightarrow> fallbackSubtotal content)"

text \<open>
  \<open>initShipping\<close> returns at once (\<open>None\<close>) when one of the four elements of the
  summary or one of the two radio buttons is missing; otherwise it reads the stored totals,
  with the text of \<open>shipSubtotal\<close> for the fallback, and recomputes.
\<close>

definition initShipping ::
  "(totals \<Rightarrow> string) \<Rightarrow> (string \<Rightarrow> json option) \<Rightarrow> document \<Rightarrow> storage
     \<Rightarrow> (document \<times> totals \<times> storage) option" where
  "initShipping JSON_stringify JSON_parse doc store =
     (case getElementById ''shipSubtotal'' doc of
        None \<Rightarrow> None
      | Some subtotalEl \<Rightarrow>
          if getElementById ''shipShipping'' doc = None \<or> getElementById ''shipTaxes'' doc = None
             \<or> getElementById ''shipTotal'' doc = None
          then None
          else if getElementById ''shipFree'' doc = None \<or> getElementById ''shipNext'' doc = None
          then None
          else let storedTotals = loadFromStorage JSON_parse store STORAGE_KEYS_totals JNull;
                   subtotal' = page_subtotal storedTotals (Some (textContent subtotalEl))
               in Some (recompute JSON_stringify subtotal' doc store))"

section \<open>Notions of the specification\<close>

text \<open>
  The integer that \<open>parseInt(s, 10)\<close> reads from a string, before it is made a Number:
  leading white space is skipped, a sign is read, and the digits that follow are the
  value; \<open>None\<close> when no digit follows.
\<close>

definition int_parse :: "string \<Rightarrow> int option" where
  "int_parse s =
     (let (neg, u) = take_sign (trim_start s);
          z = takeWhile is_digit u
      in if z = [] then None
         else Some (if neg then - int (dec_value z) else int (dec_value z)))"

text \<open>
  The Luhn checksum in the words of the specification: the digits are taken from the least
  significant end, every second one, starting with the second, is doubled, 9 is subtracted
  from a doubled digit that exceeds 9, and the sum must be divisible by 10.
\<close>

definition luhn_term :: "nat \<times> char \<Rightarrow> nat" where
  "luhn_term p =
     (let d = digit_val (snd p)
      in if odd (fst p) then (if 9 < 2 * d then 2 * d - 9 else 2 * d) else d)"

definition luhn_spec :: "string \<Rightarrow> bool" where
  "luhn_spec ds = (sum_list (map luhn_term (enumerate 0 (rev ds))) mod 10 = 0)"

text \<open>The characters that \<open>parseCurrency\<close> keeps: digits and the dot.\<close>

definition money_char :: "char \<Rightarrow> bool" where
  "money_char c = (is_digit c \<or> c = CHR ''.'')"

text \<open>
  The month and the two-digit year of a string of the form \<open>MM/YY\<close>: a month from
  \<open>01\<close> to \<open>12\<close>, a slash with at most one white space character on either side, and two
  digits; \<open>None\<close> for a string that is not of this form.
\<close>

definition skip_space :: "string \<Rightarrow> string" where
  "skip_space r = (case r of [] \<Rightarrow> [] | c # r' \<Rightarrow> if is_space c then r' else r)"

definition month_digits :: "char \<Rightarrow> char \<Rightarrow> bool" where
  "month_digits m1 m2 =
     ((m1 = CHR ''0'' \<and> in_range CHR ''1'' CHR ''9'' m2)
      \<or> (m1 = CHR ''1'' \<and> in_range CHR ''0'' CHR ''2'' m2))"

definition expiry_fields :: "string \<Rightarrow> (nat \<times> nat) option" where
  "expiry_fields s =
     (case s of
        m1 # m2 # r \<Rightarrow>
          if month_digits m1 m2 then
            (case skip_space r of
               c # r' \<Rightarrow>
                 if c = CHR ''/'' then
                   (case skip_space r' of
                      [y1, y2] \<Rightarrow>
                        if is_digit y1 \<and> is_digit y2
                        then Some (10 * digit_val m1 + digit_val m2, 10 * digit_val y1 + digit_val y2)
                        else None
                    | _ \<Rightarrow> None)
                 else None
             | [] \<Rightarrow> None)
          else None
      | _ \<Rightarrow> None)"

text \<open>
  The inputs named \<open>shippingMethod\<close> that can be checked are the radio buttons of one
  group, that of the option \<open>t\<close>: they have the form owner of \<open>t\<close>.
\<close>

definition one_group :: "element \<Rightarrow> document \<Rightarrow> bool" where
  "one_group t doc =
     (el_kind t = Radio \<and> el_name t = ''shippingMethod''
      \<and> (\<forall>e \<in> set doc. (el_kind e = Radio \<or> el_kind e = Checkbox) \<and> el_name e = ''shippingMethod''
             \<longrightarrow> el_kind e = Radio \<and> form_owner e = form_owner t))"

section \<open>Evaluating powers of two\<close>

lemma pow2_powi: "pow2 k = 2 powi k"
  by (simp add: pow2_def power_int_def field_simps)

lemma pow2_add: "pow2 (j + k) = pow2 j * pow2 k"
  by (simp add: pow2_powi power_int_add)

lemma pow2_pos: "0 < pow2 k"
  by (simp add: pow2_def)

text \<open>Binary splitting of the exponent, so that \<open>pow2 1024\<close> evaluates in a few steps.\<close>

lemma pow2_code [code]:
  "pow2 k = (if k = 0 then 1
             else if k < 0 then 1 / pow2 (- k)
             else let h = pow2 (k div 2) in if even k then h * h else 2 * h * h)"
proof -
  have d: "pow2 k = pow2 (k div 2) * pow2 (k div 2)" if "0 < k" "even k"
    using that by (simp flip: pow2_add)
  have o: "pow2 k = 2 * pow2 (k div 2) * pow2 (k div 2)" if "0 < k" "odd k"
  proof -
    from that have "k = 1 + (k div 2 + k div 2)" by presburger
    then have "pow2 k = pow2 1 * (pow2 (k div 2) * pow2 (k div 2))"
      by (metis pow2_add)
    then show ?thesis by (simp add: pow2_def)
  qed
  have n: "pow2 k = 1 / pow2 (- k)" if "k < 0"
    using that by (simp add: pow2_def)
  have z: "pow2 0 = 1"
    by (simp add: pow2_def)
  consider "k = 0" | "k < 0" | "0 < k" "even k" | "0 < k" "odd k"
    by fastforce
  then show ?thesis
  proof cases
    case 1
    then show ?thesis using z by simp
  next
    case 2
    then show ?thesis using n by simp
  next
    case 3
    then show ?thesis using d[OF 3] by (simp add: Let_def)
  next
    case 4
    then show ?thesis using o[OF 4] by (simp add: Let_def)
  qed
qed

section \<open>Properties of the rounding\<close>

lemma bit_length_lower: "0 < n \<Longrightarrow> 2 ^ (bit_length n - 1) \<le> n"
proof (induction n rule: bit_length.induct)
  case (1 n)
  show ?case
  proof (cases "n = 1")
    case True
    then show ?thesis by (simp add: bit_length.simps[of 1] bit_length.simps[of 0])
  next
    case False
    with "1.prems" have h: "0 < n div 2" by linarith
    with "1.IH" "1.prems" have ih: "2 ^ (bit_length (n div 2) - 1) \<le> n div 2" by simp
    from h have "0 < bit_length (n div 2)"
      by (subst bit_length.simps) simp
    then have "bit_length n - 1 = Suc (bit_length (n div 2) - 1)"
      using "1.prems" by (subst bit_length.simps) simp
    then have "(2::int) ^ (bit_length n - 1) = 2 * 2 ^ (bit_length (n div 2) - 1)"
      by simp
    also have "\<dots> \<le> 2 * (n div 2)" using ih by simp
    also have "\<dots> \<le> n" by linarith
    finally show ?thesis .
  qed
qed

lemma bit_length_upper: "n < 2 ^ bit_length n"
proof (induction n rule: bit_length.induct)
  case (1 n)
  show ?case
  proof (cases "n \<le> 0")
    case True
    then show ?thesis by (subst bit_length.simps) simp
  next
    case False
    with "1.IH" have ih: "n div 2 < 2 ^ bit_length (n div 2)" by simp
    have "bit_length n = Suc (bit_length (n div 2))"
      using False by (subst bit_length.simps) simp
    then have "(2::int) ^ bit_length n = 2 * 2 ^ bit_length (n div 2)" by simp
    moreover have "n < 2 * (n div 2 + 1)" by presburger
    ultimately show ?thesis using ih by linarith
  qed
qed

lemma pow2_nonneg_exp: "0 \<le> k \<Longrightarrow> pow2 k = 2 ^ nat k"
  by (simp add: pow2_def)

lemma pow2_mono: "j \<le> k \<Longrightarrow> pow2 j \<le> pow2 k"
  by (simp add: pow2_powi power_int_increasing)

lemma pow2_less_imp: "pow2 j < pow2 k \<Longrightarrow> j < k"
  using pow2_mono[of k j] by (cases "j < k") auto

lemma ilog2_lower: assumes "0 < a" shows "pow2 (ilog2 a) \<le> a"
proof (cases "1 \<le> a")
  case True
  then have f: "0 < \<lfloor>a\<rfloor>" by linarith
  then have b: "0 < bit_length \<lfloor>a\<rfloor>" by (subst bit_length.simps) simp
  have "pow2 (ilog2 a) = 2 ^ (bit_length \<lfloor>a\<rfloor> - 1)"
    using True b by (simp add: ilog2_def pow2_def nat_diff_distrib')
  also have "\<dots> = of_int (2 ^ (bit_length \<lfloor>a\<rfloor> - 1))" by simp
  also have "\<dots> \<le> of_int \<lfloor>a\<rfloor>"
    using bit_length_lower[OF f] by (simp only: of_int_le_iff)
  also have "\<dots> \<le> a" by simp
  finally show ?thesis .
next
  case False
  define N where "N = \<lceil>1 / a\<rceil>"
  define k where "k = bit_length (N - 1)"
  have "N - 1 < 2 ^ k" unfolding k_def by (rule bit_length_upper)
  then have "N \<le> 2 ^ k" by simp
  then have "of_int N \<le> (of_int (2 ^ k) :: rat)" by (simp only: of_int_le_iff)
  then have "of_int N \<le> (2 ^ k :: rat)" by simp
  moreover have "1 / a \<le> of_int N" unfolding N_def by simp
  ultimately have "1 / a \<le> 2 ^ k" by (rule order_trans[rotated])
  then have "1 / 2 ^ k \<le> a"
    using assms by (simp add: field_simps)
  moreover have "pow2 (ilog2 a) = 1 / 2 ^ k"
    using False by (simp add: ilog2_def pow2_def k_def N_def)
  ultimately show ?thesis by simp
qed


lemma round_half_even_of_int: "round_half_even (of_int k) = k"
  by (simp add: round_half_even_def)

lemma round_half_even_ge_floor: "\<lfloor>z\<rfloor> \<le> round_half_even z"
  by (simp add: round_half_even_def Let_def)

lemma round_half_even_ge: assumes "of_int k \<le> z" shows "k \<le> round_half_even z"
proof -
  from assms have "k \<le> \<lfloor>z\<rfloor>" by (simp add: le_floor_iff)
  then show ?thesis using round_half_even_ge_floor[of z] by linarith
qed

lemma div_pow2_nonpos: "q \<le> 0 \<Longrightarrow> a / pow2 q = a * 2 ^ nat (- q)"
  by (cases "q = 0") (simp_all add: pow2_def)

lemma fl_minus: "fl (- x) = num_neg (fl x)"
  by (cases "x = 0"; cases "0 < x") (auto simp: fl_def Let_def)

lemma fl_of_pos:
  assumes "0 < x"
  shows "fl x = (let q = max (ilog2 x - 52) (- 1074);
                     y = of_int (round_half_even (x / pow2 q)) * pow2 q
                 in if pow2 1024 \<le> y then PosInf else Fin y)"
  using assms by (simp add: fl_def Let_def)

lemma fl_nonneg: assumes "0 \<le> x" shows "fl x = PosInf \<or> (\<exists>y. fl x = Fin y \<and> 0 \<le> y)"
proof (cases "x = 0")
  case True
  then show ?thesis by (simp add: fl_def)
next
  case False
  with assms have p: "0 < x" by simp
  define q where "q = max (ilog2 x - 52) (- 1074)"
  have "0 \<le> x / pow2 q" using p pow2_pos[of q] by simp
  then have "0 \<le> round_half_even (x / pow2 q)"
    using round_half_even_ge[of 0] by simp
  then have "0 \<le> of_int (round_half_even (x / pow2 q)) * pow2 q"
    using pow2_pos[of q] by simp
  then show ?thesis
    using p by (simp add: fl_of_pos Let_def q_def)
qed

lemma fl_nonpos: assumes "x \<le> 0" shows "fl x = NegInf \<or> (\<exists>y. fl x = Fin y \<and> y \<le> 0)"
proof -
  have "fl x = num_neg (fl (- x))" using fl_minus[of "- x"] by simp
  moreover have "fl (- x) = PosInf \<or> (\<exists>y. fl (- x) = Fin y \<and> 0 \<le> y)"
    using assms by (intro fl_nonneg) simp
  ultimately show ?thesis by auto
qed

text \<open>Rounding never goes below an integer of at most 53 bits that the argument reaches.\<close>

lemma fl_ge_int:
  assumes k: "0 < k" "k < 2 ^ 53" and x: "of_int k \<le> x"
  shows "fl x = PosInf \<or> (\<exists>y. fl x = Fin y \<and> of_int k \<le> y)"
proof -
  from k x have p: "0 < x" by linarith
  define q where "q = max (ilog2 x - 52) (- 1074)"
  define m where "m = round_half_even (x / pow2 q)"
  have kq: "of_int k \<le> of_int m * pow2 q"
  proof (cases "q \<le> 0")
    case True
    then have e: "a / pow2 q = a * 2 ^ nat (- q)" for a
      by (rule div_pow2_nonpos)
    have "of_int (k * 2 ^ nat (- q)) = of_int k / pow2 q"
      by (simp add: e)
    also have "\<dots> \<le> x / pow2 q"
      using x pow2_pos[of q] by (simp add: divide_right_mono)
    finally have "k * 2 ^ nat (- q) \<le> m"
      unfolding m_def by (rule round_half_even_ge)
    then have "of_int (k * 2 ^ nat (- q)) \<le> (of_int m :: rat)"
      by (simp only: of_int_le_iff)
    then have "of_int k / pow2 q \<le> of_int m"
      by (simp add: e)
    then show ?thesis
      using pow2_pos[of q] by (simp add: field_simps)
  next
    case False
    then have q: "q = ilog2 x - 52" "0 < q" by (simp_all add: q_def max_def split: if_splits)
    have "pow2 52 * pow2 q = pow2 (ilog2 x)"
      using q by (simp flip: pow2_add)
    also have "\<dots> \<le> x" using p by (rule ilog2_lower)
    finally have "pow2 52 \<le> x / pow2 q"
      using pow2_pos[of q] by (simp add: field_simps)
    then have "of_int (2 ^ 52) \<le> x / pow2 q" by (simp add: pow2_def)
    then have "2 ^ 52 \<le> m" unfolding m_def by (rule round_half_even_ge)
    then have "of_int (2 ^ 52) \<le> (of_int m :: rat)" by (simp only: of_int_le_iff)
    then have "pow2 52 \<le> of_int m" by (simp add: pow2_def)
    moreover have "pow2 1 \<le> pow2 q" using q by (intro pow2_mono) simp
    ultimately have "pow2 52 * pow2 1 \<le> of_int m * pow2 q"
      using pow2_pos[of 52] pow2_pos[of 1] by (intro mult_mono) simp_all
    moreover have "of_int k \<le> pow2 52 * pow2 1"
    proof -
      from k have "k \<le> 2 ^ 53" by simp
      then have "of_int k \<le> (of_int (2 ^ 53) :: rat)" by (simp only: of_int_le_iff)
      then show ?thesis by (simp add: pow2_def)
    qed
    ultimately show ?thesis by linarith
  qed
  show ?thesis
    using p kq by (simp add: fl_of_pos Let_def q_def m_def)
qed

lemma fl_int_exact_pos:
  assumes "0 < n" "n < 2 ^ 53"
  shows "fl (of_int n) = Fin (of_int n)"
proof -
  define x :: rat where "x = of_int n"
  have p: "0 < x" using assms by (simp add: x_def)
  define q where "q = max (ilog2 x - 52) (- 1074)"
  have "pow2 (ilog2 x) \<le> x" using p by (rule ilog2_lower)
  also have "x < of_int (2 ^ 53)" unfolding x_def using assms by (simp only: of_int_less_iff)
  also have "of_int (2 ^ 53) = pow2 53" by (simp add: pow2_def)
  finally have "ilog2 x < 53" by (rule pow2_less_imp)
  then have q0: "q \<le> 0" by (simp add: q_def)
  then have e: "a / pow2 q = a * 2 ^ nat (- q)" for a
    by (rule div_pow2_nonpos)
  have "x / pow2 q = of_int (n * 2 ^ nat (- q))"
    by (simp add: e x_def)
  then have "round_half_even (x / pow2 q) = n * 2 ^ nat (- q)"
    by (simp only: round_half_even_of_int)
  then have "of_int (round_half_even (x / pow2 q)) * pow2 q = x / pow2 q * pow2 q"
    using \<open>x / pow2 q = of_int (n * 2 ^ nat (- q))\<close> by simp
  also have "\<dots> = x" using pow2_pos[of q] by simp
  finally have y: "of_int (round_half_even (x / pow2 q)) * pow2 q = x" .
  have "x < pow2 1024"
  proof -
    have "x < pow2 53" using \<open>x < of_int (2 ^ 53)\<close> \<open>of_int (2 ^ 53) = pow2 53\<close> by simp
    also have "\<dots> \<le> pow2 1024" by (intro pow2_mono) simp
    finally show ?thesis .
  qed
  then show ?thesis
    using p y by (simp add: fl_of_pos Let_def q_def flip: x_def)
qed

lemma fl_int_exact:
  assumes "\<bar>n\<bar> < 2 ^ 53"
  shows "fl (of_int n) = Fin (of_int n)"
proof -
  consider "n = 0" | "0 < n" | "n < 0" by linarith
  then show ?thesis
  proof cases
    case 1
    then show ?thesis by (simp add: fl_def)
  next
    case 2
    then show ?thesis using assms by (intro fl_int_exact_pos) simp_all
  next
    case 3
    then have "fl (of_int (- n)) = Fin (of_int (- n))"
      using assms by (intro fl_int_exact_pos) simp_all
    then show ?thesis using fl_minus[of "of_int (- n)"] by simp
  qed
qed

section \<open>Totals of the cart\<close>

lemma foldl_line_total:
  "foldl (\<lambda>sum_v r. num_add sum_v (num_mul (price r) (qty r))) z cart
     = foldl num_add z (map line_total cart)"
  by (induction cart arbitrary: z) (simp_all add: line_total_def)

lemma totals_of_600:
  "calculateTotals [\<lparr>price = Fin 600, qty = Fin 1\<rparr>] (Fin 0)
     = \<lparr>subtotal = Fin 600, taxes = Fin 13, shippingCost = Fin 0, total_v = Fin 613\<rparr>"
  by code_simp

text \<open>
  C1. For every cart and every shipping cost, \<open>calculateTotals\<close> returns the subtotal
  as the sum of price times quantity over the rows, the taxes as the subtotal times
  \<open>TAX_RATE = 13 / 600\<close>, the shipping cost unchanged, and the total as subtotal plus
  taxes plus shipping cost (all in JavaScript's rounded arithmetic); and on the single row
  of price 600 and quantity 1 with shipping cost 0 the result is exactly subtotal 600,
  taxes 13, shipping 0, total 613.
\<close>

theorem calculateTotals_correct:
  "subtotal (calculateTotals cart sc) = num_sum (map line_total cart)
   \<and> taxes (calculateTotals cart sc) = num_mul (subtotal (calculateTotals cart sc)) TAX_RATE
   \<and> TAX_RATE = num_div (Fin 13) (Fin 600)
   \<and> shippingCost (calculateTotals cart sc) = sc
   \<and> total_v (calculateTotals cart sc)
       = num_add (num_add (subtotal (calculateTotals cart sc)) (taxes (calculateTotals cart sc))) sc
   \<and> calculateTotals [\<lparr>price = Fin 600, qty = Fin 1\<rparr>] (Fin 0)
       = \<lparr>subtotal = Fin 600, taxes = Fin 13, shippingCost = Fin 0, total_v = Fin 613\<rparr>"
proof (intro conjI)
  show "subtotal (calculateTotals cart sc) = num_sum (map line_total cart)"
    by (simp add: calculateTotals_def Let_def num_sum_def foldl_line_total)
  show "TAX_RATE = num_div (Fin 13) (Fin 600)"
    by (rule TAX_RATE_def)
  show "calculateTotals [\<lparr>price = Fin 600, qty = Fin 1\<rparr>] (Fin 0)
       = \<lparr>subtotal = Fin 600, taxes = Fin 13, shippingCost = Fin 0, total_v = Fin 613\<rparr>"
    by (rule totals_of_600)
qed (simp_all add: calculateTotals_def Let_def)

section \<open>White space and digits\<close>

lemma trim_empty_iff: "trim s = [] \<longleftrightarrow> (\<forall>c \<in> set s. is_space c)"
proof
  assume "trim s = []"
  then have "\<forall>c \<in> set (dropWhile is_space s). is_space c"
    by (simp add: trim_def)
  then have "dropWhile is_space s = []"
    by (metis hd_dropWhile hd_in_set)
  then show "\<forall>c \<in> set s. is_space c"
    by simp
next
  assume "\<forall>c \<in> set s. is_space c"
  then have d: "dropWhile is_space s = []" by simp
  show "trim s = []"
    by (simp add: trim_def d)
qed

lemma blank_Some: "blank (Some s) \<longleftrightarrow> (\<forall>c \<in> set s. is_space c)"
  by (auto simp: blank_def trim_empty_iff)

lemma blank_None: "blank None"
  by (simp add: blank_def)

lemma space_not_digit: "is_space c \<Longrightarrow> \<not> is_digit c"
  by (auto simp: is_space_def is_digit_def in_range_def code_def)

lemma blank_no_digits: "blank (Some s) \<Longrightarrow> stripNonDigits s = []"
  by (auto simp: blank_Some stripNonDigits_def filter_empty_conv space_not_digit)

lemma trim_start_blank: "\<forall>c \<in> set s. is_space c \<Longrightarrow> trim_start s = []"
  by (simp add: trim_start_def)

section \<open>Storage\<close>

text \<open>
  C8. For every key and every fallback, \<open>loadFromStorage\<close> returns the fallback when the
  key is absent from the storage and when the stored string is not parseable JSON
  (\<open>JSON.parse\<close> throws, here \<open>None\<close>); on a parseable stored string it returns the
  parsed value. It is a total function: nothing is raised. A parseable string is not empty,
  the empty string not being JSON.
\<close>

theorem loadFromStorage_fallback:
  "(store key = None \<longrightarrow> loadFromStorage JSON_parse store key fallback = fallback)
   \<and> (store key = Some raw \<and> JSON_parse raw = None
        \<longrightarrow> loadFromStorage JSON_parse store key fallback = fallback)
   \<and> (store key = Some raw \<and> raw \<noteq> [] \<and> JSON_parse raw = Some v
        \<longrightarrow> loadFromStorage JSON_parse store key fallback = v)"
  by (simp add: loadFromStorage_def)

theorem loadFromStorage_fallback_witness:
  "loadFromStorage (\<lambda>raw. if raw = ''{}'' then Some (JObj []) else None)
      Map.empty ''cpa_totals'' JNull = JNull
   \<and> loadFromStorage (\<lambda>raw. if raw = ''{}'' then Some (JObj []) else None)
      [''cpa_totals'' \<mapsto> ''{oops''] ''cpa_totals'' JNull = JNull
   \<and> loadFromStorage (\<lambda>raw. if raw = ''{}'' then Some (JObj []) else None)
      [''cpa_totals'' \<mapsto> ''{}''] ''cpa_totals'' JNull = JObj []"
  using loadFromStorage_fallback
          [of Map.empty "''cpa_totals''" "\<lambda>raw. if raw = ''{}'' then Some (JObj []) else None"
              JNull "''{oops''" "JObj []"]
        loadFromStorage_fallback
          [of "[''cpa_totals'' \<mapsto> ''{oops'']" "''cpa_totals''"
              "\<lambda>raw. if raw = ''{}'' then Some (JObj []) else None" JNull "''{oops''" "JObj []"]
        loadFromStorage_fallback
          [of "[''cpa_totals'' \<mapsto> ''{}'']" "''cpa_totals''"
              "\<lambda>raw. if raw = ''{}'' then Some (JObj []) else None" JNull "''{}''" "JObj []"]
  by simp

text \<open>
  C9. Round trip: a totals record saved with \<open>saveToStorage\<close> under a key and read back
  with \<open>loadFromStorage\<close> under that key is returned with the same field values,
  whatever the storage held before and whatever the fallback. This is subject to the JSON
  round trip of the platform: \<open>JSON.parse\<close> gives the record back from the text
  \<open>JSON.stringify\<close> made of it, and that text is not empty.
\<close>

theorem storage_roundtrip:
  assumes "JSON_parse (JSON_stringify t) = Some t" and "JSON_stringify t \<noteq> []"
  shows "loadFromStorage JSON_parse (saveToStorage JSON_stringify store key t) key fallback = t"
  using assms by (simp add: loadFromStorage_def saveToStorage_def)


theorem storage_roundtrip_witness:
  \<open>loadFromStorage
      (\<lambda>raw. if raw = ''{"subtotal":600,"taxes":13,"shippingCost":0,"total":613}''
             then Some \<lparr>subtotal = Fin 600, taxes = Fin 13, shippingCost = Fin 0, total_v = Fin 613\<rparr>
             else None)
      (saveToStorage (\<lambda>t. ''{"subtotal":600,"taxes":13,"shippingCost":0,"total":613}'')
         [''cpa_totals'' \<mapsto> ''stale''] ''cpa_totals''
         \<lparr>subtotal = Fin 600, taxes = Fin 13, shippingCost = Fin 0, total_v = Fin 613\<rparr>)
      ''cpa_totals''
      \<lparr>subtotal = Fin 0, taxes = Fin 0, shippingCost = Fin 0, total_v = Fin 0\<rparr>
    = \<lparr>subtotal = Fin 600, taxes = Fin 13, shippingCost = Fin 0, total_v = Fin 613\<rparr>\<close>
  by (rule storage_roundtrip) simp_all

section \<open>Patterns and their languages\<close>

lemma cat_Nil_iff: "[] \<in> cat A B \<longleftrightarrow> [] \<in> A \<and> [] \<in> B"
  by (auto simp: cat_def)

lemma nullable_lang: "nullable r \<longleftrightarrow> [] \<in> lang r"
  by (induction r) (auto simp: cat_Nil_iff intro: iter.iter_nil)

lemma cat_Cons_iff:
  "c # w \<in> cat A B \<longleftrightarrow>
     ([] \<in> A \<and> c # w \<in> B) \<or> (\<exists>u v. w = u @ v \<and> c # u \<in> A \<and> v \<in> B)"
proof
  assume "c # w \<in> cat A B"
  then obtain u v where uv: "c # w = u @ v" "u \<in> A" "v \<in> B"
    by (auto simp: cat_def)
  show "([] \<in> A \<and> c # w \<in> B) \<or> (\<exists>u v. w = u @ v \<and> c # u \<in> A \<and> v \<in> B)"
  proof (cases u)
    case Nil
    with uv show ?thesis by simp
  next
    case (Cons a u')
    with uv show ?thesis by auto
  qed
next
  assume "([] \<in> A \<and> c # w \<in> B) \<or> (\<exists>u v. w = u @ v \<and> c # u \<in> A \<and> v \<in> B)"
  then show "c # w \<in> cat A B"
  proof
    assume "[] \<in> A \<and> c # w \<in> B"
    then have "[] @ (c # w) \<in> cat A B" unfolding cat_def by blast
    then show ?thesis by simp
  next
    assume "\<exists>u v. w = u @ v \<and> c # u \<in> A \<and> v \<in> B"
    then obtain u v where "w = u @ v" "c # u \<in> A" "v \<in> B" by blast
    then have "(c # u) @ v \<in> cat A B" unfolding cat_def by blast
    then show ?thesis using \<open>w = u @ v\<close> by simp
  qed
qed

lemma iter_Cons_iff:
  "c # w \<in> iter A \<longleftrightarrow> (\<exists>u v. w = u @ v \<and> c # u \<in> A \<and> v \<in> iter A)"
proof
  assume "c # w \<in> iter A"
  then show "\<exists>u v. w = u @ v \<and> c # u \<in> A \<and> v \<in> iter A"
  proof (induction "c # w" arbitrary: w rule: iter.induct)
    case (iter_app u v)
    show ?case
    proof (cases u)
      case Nil
      with iter_app show ?thesis by simp
    next
      case (Cons a u')
      with iter_app show ?thesis by auto
    qed
  qed
next
  assume "\<exists>u v. w = u @ v \<and> c # u \<in> A \<and> v \<in> iter A"
  then obtain u v where "w = u @ v" "c # u \<in> A" "v \<in> iter A" by blast
  then have "(c # u) @ v \<in> iter A" by (intro iter.iter_app)
  then show "c # w \<in> iter A" using \<open>w = u @ v\<close> by simp
qed

lemma lang_deriv: "w \<in> lang (deriv c r) \<longleftrightarrow> c # w \<in> lang r"
proof (induction r arbitrary: w)
  case (Then r1 r2)
  then show ?case
    by (auto simp: cat_Cons_iff nullable_lang) (auto simp: cat_def)
next
  case (Star r)
  then show ?case
    by (auto simp: iter_Cons_iff) (auto simp: cat_def)
qed auto

lemma rx_test_lang: "rx_test r s \<longleftrightarrow> s \<in> lang r"
  by (induction s arbitrary: r) (simp_all add: nullable_lang lang_deriv)


lemma lang_OneOrMore_Chars: "s \<in> lang (OneOrMore (Chars p)) \<longleftrightarrow> s \<noteq> [] \<and> (\<forall>c \<in> set s. p c)"
proof -
  have star: "s \<in> iter {[c] | c. p c} \<longleftrightarrow> (\<forall>c \<in> set s. p c)" for s
  proof
    assume "s \<in> iter {[c] | c. p c}"
    then show "\<forall>c \<in> set s. p c" by induction auto
  next
    assume "\<forall>c \<in> set s. p c"
    then show "s \<in> iter {[c] | c. p c}"
    proof (induction s)
      case Nil
      show ?case by (rule iter.iter_nil)
    next
      case (Cons a s)
      then have "[a] @ s \<in> iter {[c] | c. p c}" by (intro iter.iter_app) auto
      then show ?case by simp
    qed
  qed
  show ?thesis
  proof (cases s)
    case Nil
    then show ?thesis by (simp add: OneOrMore_def cat_def)
  next
    case (Cons a t)
    have "a # t \<in> cat {[c] | c. p c} (iter {[c] | c. p c}) \<longleftrightarrow> p a \<and> (\<forall>c \<in> set t. p c)"
      by (simp add: cat_Cons_iff star)
    with Cons show ?thesis by (simp add: OneOrMore_def)
  qed
qed

lemma rx_test_OneOrMore_digit: "rx_test (OneOrMore rx_digit) s \<longleftrightarrow> s \<noteq> [] \<and> (\<forall>c \<in> set s. is_digit c)"
  by (simp add: rx_test_lang rx_digit_def lang_OneOrMore_Chars)

lemma stripNonDigits_digits: "\<forall>c \<in> set (stripNonDigits s). is_digit c"
  by (simp add: stripNonDigits_def)

text \<open>
  C7. For every CVV string and every card type, \<open>validateCVV\<close> is valid exactly when
  the digits of the string, the other characters stripped, number 3 or 4; the result does
  not depend on the card type.
\<close>

theorem validateCVV_digits:
  "(valid (validateCVV (Some s) cardType)
      \<longleftrightarrow> length (stripNonDigits s) = 3 \<or> length (stripNonDigits s) = 4)
   \<and> validateCVV cvv cardType = validateCVV cvv cardType'"
proof
  show "valid (validateCVV (Some s) cardType)
      \<longleftrightarrow> length (stripNonDigits s) = 3 \<or> length (stripNonDigits s) = 4"
  proof (cases "blank (Some s)")
    case True
    then show ?thesis
      by (simp add: validateCVV_def required_def blank_no_digits)
  next
    case False
    have "rx_test (OneOrMore rx_digit) (stripNonDigits s) \<longleftrightarrow> stripNonDigits s \<noteq> []"
      by (simp add: rx_test_OneOrMore_digit stripNonDigits_digits)
    with False show ?thesis
      by (auto simp: validateCVV_def Let_def)
  qed
  show "validateCVV cvv cardType = validateCVV cvv cardType'"
    by (simp add: validateCVV_def Let_def)
qed

theorem validateCVV_digits_witness:
  "valid (validateCVV (Some ''12a3'') ''amex'') \<and> \<not> valid (validateCVV (Some ''12'') ''visa'')"
  using validateCVV_digits[of "''12a3''" "''amex''" None "''visa''"]
        validateCVV_digits[of "''12''" "''visa''" None "''amex''"]
  by (simp add: stripNonDigits_def is_digit_def in_range_def code_def)

section \<open>Quantities\<close>

lemma parseInt10_int_parse:
  "parseInt10 s = (case int_parse s of None \<Rightarrow> NaN | Some n \<Rightarrow> fl (of_int n))"
  by (simp add: parseInt10_def int_parse_def Let_def split: prod.splits)

lemma fl_below_one:
  assumes "n < 1"
  shows "\<not> isNaN (fl (of_int n)) \<and> num_lt (fl (of_int n)) (Fin 1)"
proof -
  from assms have "(of_int n :: rat) \<le> 0" by simp
  then have "fl (of_int n) = NegInf \<or> (\<exists>y. fl (of_int n) = Fin y \<and> y \<le> 0)"
    by (rule fl_nonpos)
  then show ?thesis by auto
qed

lemma fl_above_99:
  assumes "99 < n"
  shows "\<not> isNaN (fl (of_int n)) \<and> \<not> num_lt (fl (of_int n)) (Fin 1) \<and> num_gt (fl (of_int n)) (Fin 99)"
proof -
  from assms have "100 \<le> n" by simp
  then have "(of_int 100 :: rat) \<le> of_int n" by (simp only: of_int_le_iff)
  then have "fl (of_int n) = PosInf \<or> (\<exists>y. fl (of_int n) = Fin y \<and> of_int 100 \<le> y)"
    by (intro fl_ge_int) simp_all
  then show ?thesis by (auto simp: num_gt_def)
qed

lemma fl_in_range:
  assumes "1 \<le> n" "n \<le> 99"
  shows "fl (of_int n) = Fin (of_int n)"
  using assms by (intro fl_int_exact) simp

lemma msg_quantity_distinct: "msg_quantity \<noteq> msg_quantityMax"
  by (simp add: msg_quantity_def msg_quantityMax_def)

lemma validateQuantity_cases:
  assumes "s \<noteq> []"
  shows "validateQuantity (Some s) =
           (case int_parse s of
              None \<Rightarrow> \<lparr>valid = False, message = msg_quantity\<rparr>
            | Some n \<Rightarrow>
                if n < 1 then \<lparr>valid = False, message = msg_quantity\<rparr>
                else if 99 < n then \<lparr>valid = False, message = msg_quantityMax\<rparr>
                else \<lparr>valid = True, message = []\<rparr>)"
proof (cases "int_parse s")
  case None
  with assms show ?thesis
    by (simp add: validateQuantity_def parseInt10_int_parse)
next
  case (Some n)
  consider "n < 1" | "99 < n" | "1 \<le> n" "n \<le> 99" by linarith
  then show ?thesis
  proof cases
    case 1
    with Some assms fl_below_one[OF 1] show ?thesis
      by (simp add: validateQuantity_def parseInt10_int_parse Let_def)
  next
    case 2
    with Some assms fl_above_99[OF 2] show ?thesis
      by (simp add: validateQuantity_def parseInt10_int_parse Let_def)
  next
    case 3
    with Some assms fl_in_range[OF 3] show ?thesis
      by (simp add: validateQuantity_def parseInt10_int_parse Let_def num_gt_def)
  qed
qed

lemma int_parse_examples:
  "int_parse ''0'' = Some 0" "int_parse ''99'' = Some 99" "int_parse ''100'' = Some 100"
  "int_parse '' 12abc'' = Some 12" "int_parse ''-5'' = Some (- 5)" "int_parse ''abc'' = None"
  by code_simp+

lemma validateQuantity_examples:
  "validateQuantity (Some ''0'') = \<lparr>valid = False, message = msg_quantity\<rparr>"
  "validateQuantity (Some ''99'') = \<lparr>valid = True, message = []\<rparr>"
  "validateQuantity (Some ''100'') = \<lparr>valid = False, message = msg_quantityMax\<rparr>"
  by (simp_all add: validateQuantity_cases int_parse_examples)

text \<open>
  C6. For every non-empty string whose integer parse is \<open>n\<close>, \<open>validateQuantity\<close> is
  valid exactly when \<open>1 \<le> n \<le> 99\<close>; when \<open>n < 1\<close>, or when there is no integer to
  parse, it is invalid with the generic quantity message, and when \<open>n > 99\<close> it is invalid
  with the maximum message, which differs from the generic one. In particular \<open>0\<close> is
  invalid, \<open>99\<close> is valid and \<open>100\<close> is invalid with the maximum message.
\<close>

theorem validateQuantity_range:
  assumes "s \<noteq> []"
  shows "validateQuantity (Some s) =
           (case int_parse s of
              None \<Rightarrow> \<lparr>valid = False, message = msg_quantity\<rparr>
            | Some n \<Rightarrow>
                if n < 1 then \<lparr>valid = False, message = msg_quantity\<rparr>
                else if 99 < n then \<lparr>valid = False, message = msg_quantityMax\<rparr>
                else \<lparr>valid = True, message = []\<rparr>)
         \<and> msg_quantity \<noteq> msg_quantityMax
         \<and> validateQuantity (Some ''0'') = \<lparr>valid = False, message = msg_quantity\<rparr>
         \<and> validateQuantity (Some ''99'') = \<lparr>valid = True, message = []\<rparr>
         \<and> validateQuantity (Some ''100'') = \<lparr>valid = False, message = msg_quantityMax\<rparr>"
  using validateQuantity_cases[OF assms] msg_quantity_distinct validateQuantity_examples
  by simp

theorem validateQuantity_range_witness:
  "validateQuantity (Some '' 12abc'') = \<lparr>valid = True, message = []\<rparr>
   \<and> validateQuantity (Some ''-5'') = \<lparr>valid = False, message = msg_quantity\<rparr>
   \<and> validateQuantity (Some ''abc'') = \<lparr>valid = False, message = msg_quantity\<rparr>"
  using validateQuantity_range[of "'' 12abc''"] validateQuantity_range[of "''-5''"]
        validateQuantity_range[of "''abc''"]
  by (simp add: int_parse_examples)


section \<open>Blank input\<close>

lemma parseFloat_blank: "blank (Some s) \<Longrightarrow> parseFloat s = NaN"
  by (simp add: blank_Some parseFloat_def trim_start_blank scan_decimal_def take_sign_def
      starts_with_def scan_unsigned_def)

lemma parseInt10_blank: "blank (Some s) \<Longrightarrow> parseInt10 s = NaN"
  by (simp add: blank_Some parseInt10_def trim_start_blank take_sign_def)

text \<open>
  C5, as amended. On an input that is empty or consists of white space only, the validators
  of email, name, phone, postal code, address, city, card number, expiry and CVV return
  invalid with the required message, whatever the pattern of the field. The validators of
  currency and quantity return the required message on \<open>null\<close> and on the empty string
  only; on white space that is not empty they return invalid with the message of the field.
\<close>

theorem blank_input_required:
  assumes "blank v"
  shows "validateEmail v = required
       \<and> validateName v ft = required
       \<and> validatePhone v country = Inr required
       \<and> validatePostalCode v country = Inr required
       \<and> validateAddress v = required
       \<and> validateCity v = required
       \<and> validateCardNumber v = required
       \<and> validateCardExpiry now v = required
       \<and> validateCVV v cardType = required
       \<and> validateCurrency v
           = (if v = None \<or> v = Some [] then required else \<lparr>valid = False, message = msg_currency\<rparr>)
       \<and> validateQuantity v
           = (if v = None \<or> v = Some [] then required else \<lparr>valid = False, message = msg_quantity\<rparr>)
       \<and> valid required = False \<and> message required = msg_required"
proof -
  have c: "validateCurrency v
           = (if v = None \<or> v = Some [] then required else \<lparr>valid = False, message = msg_currency\<rparr>)"
  proof (cases v)
    case None
    then show ?thesis by (simp add: validateCurrency_def)
  next
    case (Some s)
    with assms have "parseFloat s = NaN" by (simp add: parseFloat_blank)
    with Some show ?thesis by (auto simp: validateCurrency_def)
  qed
  have q: "validateQuantity v
           = (if v = None \<or> v = Some [] then required else \<lparr>valid = False, message = msg_quantity\<rparr>)"
  proof (cases v)
    case None
    then show ?thesis by (simp add: validateQuantity_def)
  next
    case (Some s)
    with assms have "parseInt10 s = NaN" by (simp add: parseInt10_blank)
    with Some show ?thesis by (auto simp: validateQuantity_def)
  qed
  show ?thesis
    using assms c q
    by (simp add: validateEmail_def validateName_def validatePhone_def validatePostalCode_def
        validateAddress_def validateCity_def validateCardNumber_def validateCardExpiry_def
        validateCVV_def required_def)
qed

theorem blank_input_required_witness:
  "validateEmail (Some ''  '') = required
   \<and> validateCardExpiry \<lparr>fullYear = 2026, month0 = 10\<rparr> (Some ''  '') = required
   \<and> validateCurrency (Some []) = required
   \<and> validateCurrency (Some ''  '') = \<lparr>valid = False, message = msg_currency\<rparr>
   \<and> validateQuantity (Some ''  '') = \<lparr>valid = False, message = msg_quantity\<rparr>"
proof -
  have b: "blank (Some ''  '')" "blank (Some [])"
    by (simp_all add: blank_Some is_space_def code_def)
  show ?thesis
    using blank_input_required[OF b(1), of FirstName "''NZ''" "\<lparr>fullYear = 2026, month0 = 10\<rparr>" "''visa''"]
          blank_input_required[OF b(2), of FirstName "''NZ''" "\<lparr>fullYear = 2026, month0 = 10\<rparr>" "''visa''"]
    by simp
qed

text \<open>
  The claim C5 as it is stated fails for the currency validator on a string of two spaces:
  the result is the message of the field, not the required message.
\<close>

theorem blank_currency_counterexample:
  "blank (Some ''  '')
   \<and> validateCurrency (Some ''  '') = \<lparr>valid = False, message = ''Please enter a valid positive amount''\<rparr>
   \<and> validateCurrency (Some ''  '') \<noteq> required"
  by code_simp

section \<open>Card numbers\<close>

lemma luhn_term_period: "map luhn_term (enumerate (Suc (Suc n)) zs) = map luhn_term (enumerate n zs)"
proof -
  have "luhn_term (apfst Suc (apfst Suc p)) = luhn_term p" for p
    by (cases p) (simp add: luhn_term_def)
  then show ?thesis
    by (simp add: enumerate_Suc_eq)
qed

lemma luhn_loop_snoc:
  "luhn_loop (length xs) (xs @ ys) acc b
     = acc + sum_list (map luhn_term (enumerate (if b then 1 else 0) (rev xs)))"
proof (induction xs arbitrary: ys acc b rule: rev_induct)
  case Nil
  show ?case by simp
next
  case (snoc x xs)
  have step: "luhn_loop (length (xs @ [x])) ((xs @ [x]) @ ys) acc b
      = luhn_loop (length xs) (xs @ ([x] @ ys)) (acc + luhn_term (if b then 1 else 0, x)) (\<not> b)"
    by (simp add: luhn_term_def Let_def nth_append mult.commute)
  show ?case
  proof (cases b)
    case True
    have "map luhn_term (enumerate (Suc (Suc 0)) (rev xs)) = map luhn_term (enumerate 0 (rev xs))"
      by (rule luhn_term_period)
    with True show ?thesis
      unfolding step snoc.IH by simp
  next
    case False
    then show ?thesis
      unfolding step snoc.IH by simp
  qed
qed

lemma luhn_loop_spec: "luhn_loop (length ds) ds 0 False mod 10 = 0 \<longleftrightarrow> luhn_spec ds"
  using luhn_loop_snoc[of ds "[]" 0 False] by (simp add: luhn_spec_def)

text \<open>
  C3. For every string, \<open>validateCardNumber\<close> is valid exactly when the digits of the
  string, the other characters stripped, number between 13 and 19 and pass the Luhn
  checksum of the specification. It accepts \<open>4111 1111 1111 1111\<close> and rejects
  \<open>4111 1111 1111 1112\<close>.
\<close>

theorem validateCardNumber_luhn:
  "(valid (validateCardNumber (Some s))
      \<longleftrightarrow> 13 \<le> length (stripNonDigits s) \<and> length (stripNonDigits s) \<le> 19
          \<and> luhn_spec (stripNonDigits s))
   \<and> valid (validateCardNumber (Some ''4111 1111 1111 1111''))
   \<and> \<not> valid (validateCardNumber (Some ''4111 1111 1111 1112''))"
proof (intro conjI)
  show "valid (validateCardNumber (Some s))
      \<longleftrightarrow> 13 \<le> length (stripNonDigits s) \<and> length (stripNonDigits s) \<le> 19
          \<and> luhn_spec (stripNonDigits s)"
  proof (cases "blank (Some s)")
    case True
    then show ?thesis
      by (simp add: validateCardNumber_def required_def blank_no_digits)
  next
    case False
    then show ?thesis
      by (auto simp: validateCardNumber_def Let_def luhn_loop_spec)
  qed
  show "valid (validateCardNumber (Some ''4111 1111 1111 1111''))"
    by code_simp
  show "\<not> valid (validateCardNumber (Some ''4111 1111 1111 1112''))"
    by code_simp
qed

theorem validateCardNumber_luhn_witness:
  "valid (validateCardNumber (Some ''5500-0000-0000-0004''))
   \<and> \<not> valid (validateCardNumber (Some ''79927398713''))"
  using validateCardNumber_luhn[of "''5500-0000-0000-0004''"]
        validateCardNumber_luhn[of "''79927398713''"]
  by (simp add: stripNonDigits_def is_digit_def in_range_def code_def luhn_spec_def
      luhn_term_def digit_val_def enumerate_eq_zip upt_rec)

section \<open>Currency text\<close>

lemma pow10_pos: "0 < pow10 k"
  by (simp add: pow10_def)

lemma scan_unsigned_nonneg:
  assumes "scan_unsigned u = Some (v, r)"
  shows "0 \<le> v"
proof -
  define ip where "ip = takeWhile is_digit u"
  define dot where "dot = (dropWhile is_digit u \<noteq> [] \<and> hd (dropWhile is_digit u) = CHR ''.'')"
  define fp where "fp = (if dot then takeWhile is_digit (tl (dropWhile is_digit u)) else [])"
  define r2 where "r2 = (if dot then dropWhile is_digit (tl (dropWhile is_digit u)) else dropWhile is_digit u)"
  have "scan_unsigned u =
          (if ip = [] \<and> fp = [] then None
           else Some ((of_nat (dec_value ip) + of_nat (dec_value fp) / 10 ^ length fp)
                        * pow10 (fst (scan_exponent r2)), snd (scan_exponent r2)))"
    unfolding scan_unsigned_def Let_def ip_def fp_def r2_def dot_def
    by (simp only: split_beta)
  with assms have v: "v = (of_nat (dec_value ip) + of_nat (dec_value fp) / 10 ^ length fp)
                        * pow10 (fst (scan_exponent r2))"
    by (simp split: if_splits)
  have "0 \<le> (of_nat (dec_value ip) + of_nat (dec_value fp) / 10 ^ length fp :: rat)" by simp
  moreover have "0 \<le> pow10 (fst (scan_exponent r2))"
    using pow10_pos[of "fst (scan_exponent r2)"] by simp
  ultimately show ?thesis unfolding v by (rule mult_nonneg_nonneg)
qed

lemma money_char_simps:
  "money_char c \<Longrightarrow> c \<noteq> CHR ''-''" "money_char c \<Longrightarrow> c \<noteq> CHR ''+''"
  "money_char c \<Longrightarrow> c \<noteq> CHR ''x''" "money_char c \<Longrightarrow> c \<noteq> CHR ''X''"
  "money_char c \<Longrightarrow> c \<noteq> CHR ''o''" "money_char c \<Longrightarrow> c \<noteq> CHR ''O''"
  "money_char c \<Longrightarrow> c \<noteq> CHR ''b''" "money_char c \<Longrightarrow> c \<noteq> CHR ''B''"
  "money_char c \<Longrightarrow> c \<noteq> CHR ''I''"
  by (auto simp: money_char_def is_digit_def in_range_def code_def)

lemma set_trim: "set (trim s) \<subseteq> set s"
proof -
  have "set (dropWhile is_space (rev (dropWhile is_space s))) \<subseteq> set (rev (dropWhile is_space s))"
    by (rule set_dropWhileD[THEN subsetI])
  also have "\<dots> \<subseteq> set s" using set_dropWhileD by fastforce
  finally show ?thesis by (simp add: trim_def)
qed

lemma Number_of_money:
  assumes "\<forall>c \<in> set s. money_char c"
  shows "Number_of_string s = NaN \<or> Number_of_string s = PosInf
         \<or> (\<exists>y. Number_of_string s = Fin y \<and> 0 \<le> y)"
proof -
  define t where "t = trim s"
  have m: "\<forall>c \<in> set t. money_char c" using assms set_trim[of s] by (auto simp: t_def)
  show ?thesis
  proof (cases t)
    case Nil
    then show ?thesis by (simp add: Number_of_string_def flip: t_def)
  next
    case (Cons a u)
    with m have a: "money_char a" by simp
    have nopre: "\<not> starts_with [CHR ''0'', x] t" if "\<not> money_char x" for x
    proof
      assume "starts_with [CHR ''0'', x] t"
      then have "x \<in> set t" by (cases t; cases "tl t") (auto simp: starts_with_def)
      with m that show False by blast
    qed
    have nm: "\<not> money_char CHR ''x''" "\<not> money_char CHR ''X''" "\<not> money_char CHR ''o''"
      "\<not> money_char CHR ''O''" "\<not> money_char CHR ''b''" "\<not> money_char CHR ''B''"
      using money_char_simps by blast+
    have sign: "take_sign t = (False, t)"
      using Cons a money_char_simps(1,2)[of a] by (simp add: take_sign_def)
    have inf: "\<not> starts_with ''Infinity'' t"
      using Cons a money_char_simps(9)[of a] by (auto simp: starts_with_def)
    have dec: "scan_decimal t = (case scan_unsigned t of None \<Rightarrow> None | Some (v, r) \<Rightarrow> Some (fl v, r))"
      by (simp add: scan_decimal_def sign inf split: option.splits)
    have N: "Number_of_string s = (case scan_unsigned t of None \<Rightarrow> NaN
                | Some (v, r) \<Rightarrow> if r = [] then fl v else NaN)"
    proof -
      have "t \<noteq> []" using Cons by simp
      then show ?thesis
        using nopre[OF nm(1)] nopre[OF nm(2)] nopre[OF nm(3)] nopre[OF nm(4)]
              nopre[OF nm(5)] nopre[OF nm(6)]
        by (cases "scan_unsigned t") (auto simp: Number_of_string_def dec simp flip: t_def)
    qed
    show ?thesis
    proof (cases "scan_unsigned t")
      case None
      with N show ?thesis by simp
    next
      case (Some p)
      obtain v r where p: "p = (v, r)" by (cases p)
      with Some have "0 \<le> v" by (auto dest: scan_unsigned_nonneg)
      then have "fl v = PosInf \<or> (\<exists>y. fl v = Fin y \<and> 0 \<le> y)" by (rule fl_nonneg)
      with N Some p show ?thesis by auto
    qed
  qed
qed

lemma parseCurrency_nonneg: "\<exists>y. parseCurrency text = Fin y \<and> 0 \<le> y"
proof (cases "text")
  case None
  then show ?thesis by (simp add: parseCurrency_def)
next
  case (Some t)
  define cleaned where "cleaned = filter (\<lambda>c. is_digit c \<or> c = CHR ''.'') t"
  have "\<forall>c \<in> set cleaned. money_char c" by (simp add: cleaned_def money_char_def)
  then have "Number_of_string cleaned = NaN \<or> Number_of_string cleaned = PosInf
         \<or> (\<exists>y. Number_of_string cleaned = Fin y \<and> 0 \<le> y)"
    by (rule Number_of_money)
  then show ?thesis
    using Some by (auto simp: parseCurrency_def Let_def simp flip: cleaned_def)
qed

lemma Number_of_dots:
  assumes "\<forall>c \<in> set s. c = CHR ''.''"
  shows "Number_of_string s = Fin 0 \<or> Number_of_string s = NaN"
proof -
  define t where "t = trim s"
  have m: "\<forall>c \<in> set t. c = CHR ''.''" using assms set_trim[of s] by (auto simp: t_def)
  show ?thesis
  proof (cases t)
    case Nil
    then show ?thesis by (simp add: Number_of_string_def flip: t_def)
  next
    case (Cons a u)
    with m have a: "a = CHR ''.''" by simp
    have u: "takeWhile is_digit u = []"
    proof (cases u)
      case Nil
      then show ?thesis by simp
    next
      case (Cons b w)
      with m \<open>t = a # u\<close> have "b = CHR ''.''" by simp
      with Cons show ?thesis by (simp add: is_digit_def in_range_def code_def)
    qed
    have "scan_unsigned t = None"
      using Cons a u by (simp add: scan_unsigned_def is_digit_def in_range_def code_def)
    then have "scan_decimal t = None"
      using Cons a by (simp add: scan_decimal_def take_sign_def starts_with_def)
    then show ?thesis
      using Cons a by (simp add: Number_of_string_def starts_with_def flip: t_def)
  qed
qed

lemma parseCurrency_no_digits:
  assumes "text = None \<or> (\<exists>s. text = Some s \<and> (\<forall>c \<in> set s. \<not> is_digit c))"
  shows "parseCurrency text = Fin 0"
proof (cases "text")
  case None
  then show ?thesis by (simp add: parseCurrency_def)
next
  case (Some t)
  with assms have nd: "\<forall>c \<in> set t. \<not> is_digit c" by simp
  define cleaned where "cleaned = filter (\<lambda>c. is_digit c \<or> c = CHR ''.'') t"
  have "\<forall>c \<in> set cleaned. c = CHR ''.''" using nd by (auto simp: cleaned_def)
  then have "Number_of_string cleaned = Fin 0 \<or> Number_of_string cleaned = NaN"
    by (rule Number_of_dots)
  then show ?thesis
    using Some by (auto simp: parseCurrency_def Let_def simp flip: cleaned_def)
qed

text \<open>
  C10. For every input, \<open>null\<close>, the empty string and any text, \<open>parseCurrency\<close>
  returns a finite Number that is not negative; on \<open>null\<close> and on a text without a digit
  (the empty text is one) it returns \<open>0\<close>. So the fallback subtotal of the shipping page,
  \<open>parseCurrency(text) || 600\<close>, is always finite and positive.
\<close>

theorem parseCurrency_finite_nonneg:
  "(\<exists>y. parseCurrency text = Fin y \<and> 0 \<le> y)
   \<and> isFinite (parseCurrency text)
   \<and> (text = None \<or> (\<exists>s. text = Some s \<and> (\<forall>c \<in> set s. \<not> is_digit c))
        \<longrightarrow> parseCurrency text = Fin 0)
   \<and> (\<exists>y. fallbackSubtotal text = Fin y \<and> 0 < y)"
proof -
  obtain y where y: "parseCurrency text = Fin y" "0 \<le> y"
    using parseCurrency_nonneg by blast
  then have "\<exists>z. fallbackSubtotal text = Fin z \<and> 0 < z"
    by (cases "y = 0") (simp_all add: fallbackSubtotal_def)
  with y parseCurrency_no_digits show ?thesis by auto
qed

theorem parseCurrency_finite_nonneg_witness:
  "parseCurrency None = Fin 0 \<and> parseCurrency (Some []) = Fin 0
   \<and> parseCurrency (Some ''n/a -'') = Fin 0
   \<and> fallbackSubtotal (Some ''n/a'') = Fin 600"
  using parseCurrency_finite_nonneg[of None] parseCurrency_finite_nonneg[of "Some []"]
        parseCurrency_finite_nonneg[of "Some ''n/a -''"] parseCurrency_finite_nonneg[of "Some ''n/a''"]
  by (simp add: is_digit_def in_range_def code_def fallbackSubtotal_def)

lemma parseCurrency_examples:
  "parseCurrency (Some ''$600'') = Fin 600"
  "parseCurrency (Some ''-5'') = Fin 5"
  "parseCurrency (Some ''1.2.3'') = Fin 0"
  by code_simp+

section \<open>Matching step by step\<close>

declare rx_test.simps [simp del]

lemma rx_test_Fail [simp]: "rx_test Fail s = False"
  by (simp add: rx_test_lang)

lemma rx_test_Eps [simp]: "rx_test EmptyStr s \<longleftrightarrow> s = []"
  by (simp add: rx_test_lang)

lemma rx_test_Alt [simp]: "rx_test (Alt a b) s \<longleftrightarrow> rx_test a s \<or> rx_test b s"
  by (simp add: rx_test_lang)

lemma rx_test_Then_Fail [simp]: "rx_test (Then Fail r) s = False"
  by (simp add: rx_test_lang cat_def)

lemma rx_test_Then_Chars_Nil [simp]: "rx_test (Then (Chars p) r) [] = False"
  by (simp add: rx_test_lang cat_def)

lemma rx_test_Then_Chars_Cons [simp]: "rx_test (Then (Chars p) r) (c # cs) \<longleftrightarrow> p c \<and> rx_test r cs"
  by (auto simp: rx_test_lang cat_Cons_iff)

lemma rx_test_Then_Alt [simp]:
  "rx_test (Then (Alt a b) r) s \<longleftrightarrow> rx_test (Then a r) s \<or> rx_test (Then b r) s"
  by (auto simp: rx_test_lang cat_def)

lemma rx_test_Then_Eps [simp]: "rx_test (Then EmptyStr r) s \<longleftrightarrow> rx_test r s"
  by (simp add: rx_test_lang cat_def)

lemma rx_test_Then_Then [simp]:
  "rx_test (Then (Then a b) r) s \<longleftrightarrow> rx_test (Then a (Then b r)) s"
proof -
  have "cat (cat A B) C = cat A (cat B C)" for A B C :: "string set"
  proof (intro set_eqI iffI)
    fix w assume "w \<in> cat (cat A B) C"
    then obtain a b c where "w = (a @ b) @ c" "a \<in> A" "b \<in> B" "c \<in> C"
      unfolding cat_def by blast
    then have "w = a @ (b @ c)" "a \<in> A" "b @ c \<in> cat B C"
      unfolding cat_def by auto
    then show "w \<in> cat A (cat B C)" unfolding cat_def by blast
  next
    fix w assume "w \<in> cat A (cat B C)"
    then obtain a b c where "w = a @ (b @ c)" "a \<in> A" "b \<in> B" "c \<in> C"
      unfolding cat_def by blast
    then have "w = (a @ b) @ c" "a @ b \<in> cat A B" "c \<in> C"
      unfolding cat_def by auto
    then show "w \<in> cat (cat A B) C" unfolding cat_def by blast
  qed
  then show ?thesis by (simp add: rx_test_lang)
qed

lemma rx_test_Chars [simp]: "rx_test (Chars p) s \<longleftrightarrow> (\<exists>c. s = [c] \<and> p c)"
  by (auto simp: rx_test_lang)


section \<open>Expiry dates\<close>

lemma digit_facts:
  assumes "is_digit c"
  shows "\<not> is_space c" "c \<noteq> CHR ''/''" "c \<noteq> CHR ''-''" "c \<noteq> CHR ''+''" "digit_val c \<le> 9"
  using assms by (auto simp: is_digit_def is_space_def in_range_def code_def digit_val_def)

lemma slash_not_space: "\<not> is_space CHR ''/''"
  by (simp add: is_space_def code_def)

lemma month_digits_digit: "month_digits m1 m2 \<Longrightarrow> is_digit m1 \<and> is_digit m2"
  by (auto simp: month_digits_def is_digit_def in_range_def code_def)

lemma month_digits_range:
  "month_digits m1 m2 \<Longrightarrow> 1 \<le> 10 * digit_val m1 + digit_val m2 \<and> 10 * digit_val m1 + digit_val m2 \<le> 12"
  by (auto simp: month_digits_def in_range_def code_def digit_val_def)

lemma test_two_digits:
  "rx_test (Exactly 2 rx_digit) t \<longleftrightarrow> (\<exists>y1 y2. t = [y1, y2] \<and> is_digit y1 \<and> is_digit y2)"
proof (cases t)
  case Nil
  then show ?thesis by (simp add: numeral_2_eq_2 rx_digit_def)
next
  case (Cons a u)
  then show ?thesis by (cases u) (auto simp: numeral_2_eq_2 rx_digit_def)
qed

lemma test_opt_space:
  assumes "\<And>c cs. is_space c \<Longrightarrow> \<not> rx_test R (c # cs)"
  shows "rx_test (Then (Opt rx_space) R) r \<longleftrightarrow> rx_test R (skip_space r)"
  using assms by (cases r) (auto simp: Opt_def rx_space_def skip_space_def)

lemma test_cardExpiry:
  "rx_test pattern_cardExpiry s \<longleftrightarrow>
     (\<exists>m1 m2 r r' y1 y2. s = m1 # m2 # r \<and> month_digits m1 m2
        \<and> skip_space r = CHR ''/'' # r' \<and> skip_space r' = [y1, y2] \<and> is_digit y1 \<and> is_digit y2)"
proof -
  define tail2 where "tail2 = Then (Opt rx_space) (Exactly 2 rx_digit)"
  define tail1 where "tail1 = Then (Lit CHR ''/'') tail2"
  have t2: "rx_test tail2 r \<longleftrightarrow> (\<exists>y1 y2. skip_space r = [y1, y2] \<and> is_digit y1 \<and> is_digit y2)" for r
    unfolding tail2_def
    by (subst test_opt_space) (auto simp: test_two_digits digit_facts)
  have t1: "rx_test tail1 r \<longleftrightarrow> (\<exists>r'. r = CHR ''/'' # r' \<and> rx_test tail2 r')" for r
    unfolding tail1_def by (cases r) (auto simp: Lit_def)
  have t0: "rx_test (Then (Opt rx_space) tail1) r \<longleftrightarrow> rx_test tail1 (skip_space r)" for r
    by (rule test_opt_space) (auto simp: t1 slash_not_space)
  have "rx_test pattern_cardExpiry s \<longleftrightarrow>
          (\<exists>m1 m2 r. s = m1 # m2 # r \<and> month_digits m1 m2 \<and> rx_test (Then (Opt rx_space) tail1) r)"
  proof (cases s)
    case Nil
    then show ?thesis by (simp add: pattern_cardExpiry_def Lit_def)
  next
    case (Cons a u)
    then show ?thesis
      by (cases u)
         (auto simp: pattern_cardExpiry_def Lit_def month_digits_def tail1_def tail2_def)
  qed
  then show ?thesis by (simp add: t0 t1 t2)
qed

lemma expiry_fields_Some_iff:
  "expiry_fields s = Some (mm, yy) \<longleftrightarrow>
     (\<exists>m1 m2 r r' y1 y2. s = m1 # m2 # r \<and> month_digits m1 m2
        \<and> skip_space r = CHR ''/'' # r' \<and> skip_space r' = [y1, y2] \<and> is_digit y1 \<and> is_digit y2
        \<and> mm = 10 * digit_val m1 + digit_val m2 \<and> yy = 10 * digit_val y1 + digit_val y2)"
  by (auto simp: expiry_fields_def split: list.splits if_splits)

lemma test_cardExpiry_fields: "rx_test pattern_cardExpiry s \<longleftrightarrow> expiry_fields s \<noteq> None"
proof
  assume "rx_test pattern_cardExpiry s"
  then obtain m1 m2 r r' y1 y2 where "s = m1 # m2 # r" "month_digits m1 m2"
      "skip_space r = CHR ''/'' # r'" "skip_space r' = [y1, y2]" "is_digit y1" "is_digit y2"
    unfolding test_cardExpiry by blast
  then have "expiry_fields s = Some (10 * digit_val m1 + digit_val m2, 10 * digit_val y1 + digit_val y2)"
    unfolding expiry_fields_Some_iff by blast
  then show "expiry_fields s \<noteq> None" by simp
next
  assume "expiry_fields s \<noteq> None"
  then obtain mm yy where "expiry_fields s = Some (mm, yy)" by auto
  then show "rx_test pattern_cardExpiry s"
    unfolding expiry_fields_Some_iff test_cardExpiry by blast
qed


lemma filter_skip_space:
  "filter (\<lambda>c. \<not> is_space c) (skip_space r) = filter (\<lambda>c. \<not> is_space c) r"
  by (cases r) (simp_all add: skip_space_def)

lemma fl_of_nat_exact: "n < 2 ^ 53 \<Longrightarrow> fl (of_nat n) = Fin (of_nat n)"
  using fl_int_exact[of "int n"] by simp

lemma parseInt10_digits:
  assumes "ds \<noteq> []" "\<forall>c \<in> set ds. is_digit c" "dec_value ds < 2 ^ 53"
  shows "parseInt10 ds = Fin (of_nat (dec_value ds))"
proof -
  from assms obtain c cs where ds: "ds = c # cs" "is_digit c" by (cases ds) auto
  have ts: "trim_start ds = ds" using ds by (simp add: trim_start_def digit_facts)
  have sg: "take_sign ds = (False, ds)"
    using ds digit_facts(3,4)[of c] by (simp add: take_sign_def)
  have tw: "takeWhile is_digit ds = ds" using assms(2) by simp
  show ?thesis
    using assms(1,3) by (simp add: parseInt10_def ts sg tw fl_of_nat_exact)
qed

lemma expiry_parts:
  assumes "s = m1 # m2 # r" "month_digits m1 m2" "skip_space r = CHR ''/'' # r'"
      "skip_space r' = [y1, y2]" "is_digit y1" "is_digit y2"
  shows "split CHR ''/'' (filter (\<lambda>c. \<not> is_space c) s) = [[m1, m2], [y1, y2]]"
proof -
  have m: "is_digit m1" "is_digit m2" using assms(2) month_digits_digit by blast+
  have "filter (\<lambda>c. \<not> is_space c) r' = [y1, y2]"
    using filter_skip_space[of r'] assms(4,5,6) by (simp add: digit_facts)
  then have "filter (\<lambda>c. \<not> is_space c) r = [CHR ''/'', y1, y2]"
    using filter_skip_space[of r] assms(3) by (simp add: slash_not_space)
  then have "filter (\<lambda>c. \<not> is_space c) s = [m1, m2, CHR ''/'', y1, y2]"
    using assms(1) m by (simp add: digit_facts)
  then show ?thesis
    using m assms(5,6) by (simp add: digit_facts)
qed

lemma dec_value_two: "dec_value [a, b] = 10 * digit_val a + digit_val b"
  by (simp add: dec_value_def)

lemma dec_value_year: "dec_value (''20'' @ [a, b]) = 2000 + (10 * digit_val a + digit_val b)"
  by (simp add: dec_value_def digit_val_def code_def)

lemma is_digit_20: "is_digit CHR ''2''" "is_digit CHR ''0''"
  by (simp_all add: is_digit_def in_range_def code_def)

lemma expiry_month_year:
  assumes "expiry_fields s = Some (mm, yy)"
  defines "parts \<equiv> split CHR ''/'' (filter (\<lambda>c. \<not> is_space c) s)"
  shows "parseInt10 (parts ! 0) = Fin (of_nat mm)"
    and "parseInt10 (''20'' @ (if 1 < length parts then parts ! 1 else ''undefined'')) = Fin (of_nat (2000 + yy))"
    and "1 \<le> mm" "mm \<le> 12" "yy \<le> 99"
proof -
  from assms(1) obtain m1 m2 r r' y1 y2 where f: "s = m1 # m2 # r" "month_digits m1 m2"
      "skip_space r = CHR ''/'' # r'" "skip_space r' = [y1, y2]" "is_digit y1" "is_digit y2"
      and v: "mm = 10 * digit_val m1 + digit_val m2" "yy = 10 * digit_val y1 + digit_val y2"
    unfolding expiry_fields_Some_iff by blast
  have m: "is_digit m1" "is_digit m2" using f(2) month_digits_digit by blast+
  have p: "parts = [[m1, m2], [y1, y2]]" unfolding parts_def using f by (rule expiry_parts)
  show "1 \<le> mm" "mm \<le> 12" using month_digits_range[OF f(2)] v by simp_all
  then have "dec_value [m1, m2] < 2 ^ 53" using v by (simp add: dec_value_two)
  then show "parseInt10 (parts ! 0) = Fin (of_nat mm)"
    using m v by (simp add: p parseInt10_digits dec_value_two)
  show y: "yy \<le> 99" using digit_facts(5)[OF f(5)] digit_facts(5)[OF f(6)] v by simp
  then have "dec_value (''20'' @ [y1, y2]) < 2 ^ 53" using v by (simp only: dec_value_year) simp
  then have "parseInt10 (''20'' @ [y1, y2]) = Fin (of_nat (dec_value (''20'' @ [y1, y2])))"
    using f(5,6) is_digit_20 by (intro parseInt10_digits) simp_all
  then show "parseInt10 (''20'' @ (if 1 < length parts then parts ! 1 else ''undefined'')) = Fin (of_nat (2000 + yy))"
    using v by (simp only: dec_value_year p) simp
qed

lemma nat_int_compare:
  "(of_nat a :: rat) < of_int b \<longleftrightarrow> int a < b"
  "(of_int b :: rat) < of_nat a \<longleftrightarrow> b < int a"
  "(of_nat a :: rat) = of_int b \<longleftrightarrow> int a = b"
proof -
  have e: "(of_nat a :: rat) = of_int (int a)" by simp
  show "(of_nat a :: rat) < of_int b \<longleftrightarrow> int a < b"
    unfolding e by (rule of_int_less_iff)
  show "(of_int b :: rat) < of_nat a \<longleftrightarrow> b < int a"
    unfolding e by (rule of_int_less_iff)
  show "(of_nat a :: rat) = of_int b \<longleftrightarrow> int a = b"
    unfolding e by (rule of_int_eq_iff)
qed

lemma msg_expiry_distinct: "msg_cardExpiryPast \<noteq> msg_cardExpiry" "msg_required \<noteq> msg_cardExpiry"
  by (simp_all add: msg_cardExpiryPast_def msg_cardExpiry_def msg_required_def)

lemma validateCardExpiry_fields:
  assumes clock: "month0 now \<le> 11" "\<bar>fullYear now\<bar> < 300000"
      and nb: "\<not> blank (Some s)"
      and f: "expiry_fields s = Some (mm, yy)"
  shows "validateCardExpiry now (Some s) =
          (if 2000 + int yy < fullYear now \<or> (2000 + int yy = fullYear now \<and> mm < month0 now + 1)
           then \<lparr>valid = False, message = msg_cardExpiryPast\<rparr>
           else if fullYear now + 10 < 2000 + int yy
           then \<lparr>valid = False, message = msg_cardExpiry\<rparr>
           else \<lparr>valid = True, message = []\<rparr>)"
proof -
  define parts where "parts = split CHR ''/'' (filter (\<lambda>c. \<not> is_space c) s)"
  have t: "rx_test pattern_cardExpiry s" using f by (simp add: test_cardExpiry_fields)
  have m: "parseInt10 (parts ! 0) = Fin (of_nat mm)"
    unfolding parts_def using f by (rule expiry_month_year(1))
  have y: "parseInt10 (''20'' @ (if 1 < length parts then parts ! 1 else ''undefined''))
            = Fin (of_nat (2000 + yy))"
    unfolding parts_def using f by (rule expiry_month_year(2))
  have "fl (of_nat (Suc (month0 now))) = Fin (of_nat (Suc (month0 now)))"
    using clock(1) by (intro fl_of_nat_exact) simp
  then have cm: "num_add (Fin (of_nat (month0 now))) (Fin 1) = Fin (of_nat (month0 now + 1))"
    by (simp add: add.commute)
  have "fl (of_int (fullYear now + 10)) = Fin (of_int (fullYear now + 10))"
    using clock(2) by (intro fl_int_exact) simp
  then have cy: "num_add (Fin (of_int (fullYear now))) (Fin 10) = Fin (of_int (fullYear now + 10))"
    by simp
  have e: "validateCardExpiry now (Some s) =
      (let month = Fin (of_nat mm); year = Fin (of_nat (2000 + yy));
           currentYear = Fin (of_int (fullYear now));
           currentMonth = Fin (of_nat (month0 now + 1))
       in if num_lt year currentYear \<or> (num_eq year currentYear \<and> num_lt month currentMonth)
          then \<lparr>valid = False, message = msg_cardExpiryPast\<rparr>
          else if num_gt year (Fin (of_int (fullYear now + 10)))
          then \<lparr>valid = False, message = msg_cardExpiry\<rparr>
          else \<lparr>valid = True, message = []\<rparr>)"
    using nb t m y cm cy
    by (simp add: validateCardExpiry_def Let_def flip: parts_def)
  show ?thesis
    unfolding e Let_def num_gt_def num_eq_def
    by (simp add: nat_int_compare del: of_nat_add of_int_add)
qed


lemma validateCardExpiry_result:
  assumes "month0 now \<le> 11" "\<bar>fullYear now\<bar> < 300000"
  shows "validateCardExpiry now (Some s) =
     (if blank (Some s) then required
      else case expiry_fields s of
        None \<Rightarrow> \<lparr>valid = False, message = msg_cardExpiry\<rparr>
      | Some (mm, yy) \<Rightarrow>
          if 2000 + int yy < fullYear now \<or> (2000 + int yy = fullYear now \<and> mm < month0 now + 1)
          then \<lparr>valid = False, message = msg_cardExpiryPast\<rparr>
          else if fullYear now + 10 < 2000 + int yy
          then \<lparr>valid = False, message = msg_cardExpiry\<rparr>
          else \<lparr>valid = True, message = []\<rparr>)
   \<and> msg_cardExpiryPast \<noteq> msg_cardExpiry \<and> msg_required \<noteq> msg_cardExpiry"
proof (cases "blank (Some s)")
  case True
  then show ?thesis by (simp add: validateCardExpiry_def msg_expiry_distinct)
next
  case nb: False
  show ?thesis
  proof (cases "expiry_fields s")
    case None
    then have "\<not> rx_test pattern_cardExpiry s" by (simp add: test_cardExpiry_fields)
    with nb None show ?thesis by (simp add: validateCardExpiry_def msg_expiry_distinct)
  next
    case (Some p)
    obtain mm yy where p: "p = (mm, yy)" by (cases p)
    with Some have "expiry_fields s = Some (mm, yy)" by simp
    from validateCardExpiry_fields[OF assms nb this] nb Some p show ?thesis
      by (simp add: msg_expiry_distinct)
  qed
qed

lemma expiry_fields_examples:
  "expiry_fields ''01/20'' = Some (1, 20)" "expiry_fields ''12/35'' = Some (12, 35)"
  "expiry_fields ''12/36'' = Some (12, 36)" "expiry_fields ''01 / 37'' = Some (1, 37)"
  "expiry_fields ''13/30'' = None" "expiry_fields [] = None" "expiry_fields ''11/26'' = Some (11, 26)"
  by code_simp+

lemma blank_examples: "\<not> blank (Some ''01/20'')" "\<not> blank (Some ''12/35'')" "\<not> blank (Some ''12/36'')"
  "\<not> blank (Some ''01 / 37'')" "\<not> blank (Some ''13/30'')" "blank (Some [])" "\<not> blank (Some ''11/26'')"
  by code_simp+


text \<open>
  C4, as amended. For every clock (a month from 0 to 11, a year of the range of dates) and
  every string: a string that is empty or white space only is invalid with the required
  message; any other string that is not of the form \<open>MM/YY\<close> (month 01 to 12, at most
  one white space character on either side of the slash) is invalid with the format
  message; a string of the form is invalid with the expired message when the year
  \<open>2000 + YY\<close> and the month are before the current year and month, invalid with the
  format message when the year exceeds the current year by more than 10 (whatever the
  months), and valid otherwise. The expired message differs from the format message.
\<close>

theorem validateCardExpiry_cases:
  assumes "month0 now \<le> 11" "\<bar>fullYear now\<bar> < 300000"
  shows "validateCardExpiry now (Some s) =
     (if blank (Some s) then required
      else case expiry_fields s of
        None \<Rightarrow> \<lparr>valid = False, message = msg_cardExpiry\<rparr>
      | Some (mm, yy) \<Rightarrow>
          if 2000 + int yy < fullYear now \<or> (2000 + int yy = fullYear now \<and> mm < month0 now + 1)
          then \<lparr>valid = False, message = msg_cardExpiryPast\<rparr>
          else if fullYear now + 10 < 2000 + int yy
          then \<lparr>valid = False, message = msg_cardExpiry\<rparr>
          else \<lparr>valid = True, message = []\<rparr>)
   \<and> msg_cardExpiryPast \<noteq> msg_cardExpiry \<and> msg_required \<noteq> msg_cardExpiry"
  using assms by (rule validateCardExpiry_result)

theorem validateCardExpiry_cases_witness:
  "validateCardExpiry \<lparr>fullYear = 2026, month0 = 10\<rparr> (Some ''01/20'')
      = \<lparr>valid = False, message = msg_cardExpiryPast\<rparr>
   \<and> validateCardExpiry \<lparr>fullYear = 2026, month0 = 10\<rparr> (Some ''12/35'')
      = \<lparr>valid = True, message = []\<rparr>
   \<and> validateCardExpiry \<lparr>fullYear = 2026, month0 = 10\<rparr> (Some ''11/26'')
      = \<lparr>valid = True, message = []\<rparr>
   \<and> validateCardExpiry \<lparr>fullYear = 2026, month0 = 10\<rparr> (Some ''01 / 37'')
      = \<lparr>valid = False, message = msg_cardExpiry\<rparr>
   \<and> validateCardExpiry \<lparr>fullYear = 2026, month0 = 10\<rparr> (Some ''13/30'')
      = \<lparr>valid = False, message = msg_cardExpiry\<rparr>"
  using validateCardExpiry_cases[of "\<lparr>fullYear = 2026, month0 = 10\<rparr>" "''01/20''"]
        validateCardExpiry_cases[of "\<lparr>fullYear = 2026, month0 = 10\<rparr>" "''12/35''"]
        validateCardExpiry_cases[of "\<lparr>fullYear = 2026, month0 = 10\<rparr>" "''11/26''"]
        validateCardExpiry_cases[of "\<lparr>fullYear = 2026, month0 = 10\<rparr>" "''01 / 37''"]
        validateCardExpiry_cases[of "\<lparr>fullYear = 2026, month0 = 10\<rparr>" "''13/30''"]
  by (simp add: expiry_fields_examples blank_examples)


text \<open>
  The claim C4 as it is stated fails on the empty string, which is not of the form
  \<open>MM/YY\<close> and gets the required message, not the format message. Also, in November
  2026 the expiry \<open>12/36\<close>, ten years and a month ahead, is valid.
\<close>

theorem expiry_claim_counterexample:
  "expiry_fields [] = None
   \<and> validateCardExpiry \<lparr>fullYear = 2026, month0 = 10\<rparr> (Some [])
        = \<lparr>valid = False, message = ''This field is required''\<rparr>
   \<and> ''This field is required'' \<noteq> msg_cardExpiry
   \<and> expiry_fields ''12/36'' = Some (12, 36)
   \<and> validateCardExpiry \<lparr>fullYear = 2026, month0 = 10\<rparr> (Some ''12/36'')
        = \<lparr>valid = True, message = []\<rparr>"
  using validateCardExpiry_result[of "\<lparr>fullYear = 2026, month0 = 10\<rparr>" "[]"]
        validateCardExpiry_result[of "\<lparr>fullYear = 2026, month0 = 10\<rparr>" "''12/36''"]
  by (simp add: expiry_fields_examples blank_examples required_def msg_required_def)

section \<open>The free shipping rule\<close>

section \<open>The free shipping rule\<close>

lemma getElementById_update_first:
  assumes "\<And>e. el_id (f e) = el_id e"
  shows "getElementById i (update_first (\<lambda>e. el_id e = j) f doc)
           = map_option (\<lambda>e. if i = j then f e else e) (getElementById i doc)"
  using assms by (induction doc) (simp_all add: getElementById_def option.map_ident)

lemma getElementById_map:
  assumes "\<And>e. el_id (g e) = el_id e"
  shows "getElementById i (map g doc) = map_option g (getElementById i doc)"
  using assms by (induction doc) (simp_all add: getElementById_def)

lemma map_checked_set_disabled: "map checked (set_disabled i b doc) = map checked doc"
  unfolding set_disabled_def by (induction doc) simp_all

lemma selected_set_disabled:
  "map_option data_ship_cost (selected_shippingMethod (set_disabled i b doc))
     = map_option data_ship_cost (selected_shippingMethod doc)"
  unfolding set_disabled_def selected_shippingMethod_def
  by (induction doc) (auto simp: matches_checked_def)

lemma cost_set_disabled: "getSelectedShippingCost (set_disabled i b doc) = getSelectedShippingCost doc"
  using selected_set_disabled[of i b doc]
  by (auto simp: getSelectedShippingCost_def Let_def split: option.splits)

lemma set_checked_Some:
  assumes "getElementById i doc = Some t"
  shows "set_checked i doc
           = update_first (\<lambda>e. el_id e = i) (\<lambda>e. e\<lparr>checked := True\<rparr>)
               (map (\<lambda>e. if same_group t e then e\<lparr>checked := False\<rparr> else e) doc)"
  using assms by (simp add: set_checked_def)

lemma getElementById_set_checked_any:
  assumes "getElementById i doc = Some t" "getElementById j doc = Some u"
  shows "\<exists>u'. getElementById j (set_checked i doc) = Some u' \<and> (j = i \<longrightarrow> checked u')"
proof -
  define g :: "element \<Rightarrow> element" where
    "g = (\<lambda>e. if same_group t e then e\<lparr>checked := False\<rparr> else e)"
  have id: "el_id (g e) = el_id e" for e by (simp add: g_def)
  have "getElementById j (map g doc) = Some (g u)"
    using getElementById_map[of g j doc, OF id] assms(2) by simp
  then have "getElementById j (set_checked i doc)
               = Some (if j = i then (g u)\<lparr>checked := True\<rparr> else g u)"
    unfolding set_checked_Some[OF assms(1)] g_def[symmetric]
    by (simp add: getElementById_update_first)
  then show ?thesis by simp
qed

lemma selected_after_check:
  assumes "\<forall>e \<in> set doc. \<not> matches_checked e"
      and "find (\<lambda>e. el_id e = i) doc = Some t" and "matches_checked (t\<lparr>checked := True\<rparr>)"
  shows "find matches_checked (update_first (\<lambda>e. el_id e = i) (\<lambda>e. e\<lparr>checked := True\<rparr>) doc)
         = Some (t\<lparr>checked := True\<rparr>)"
  using assms
proof (induction doc)
  case Nil
  then show ?case by simp
next
  case (Cons a doc)
  show ?case
  proof (cases "el_id a = i")
    case True
    with Cons.prems show ?thesis by simp
  next
    case False
    with Cons show ?thesis by simp
  qed
qed

lemma selected_set_checked:
  assumes t: "getElementById i doc = Some t" and g: "one_group t doc"
  shows "map_option data_ship_cost (selected_shippingMethod (set_checked i doc))
           = Some (data_ship_cost t)"
proof -
  define g :: "element \<Rightarrow> element" where "g = (\<lambda>e. if same_group t e then e\<lparr>checked := False\<rparr> else e)"
  have sc: "set_checked i doc = update_first (\<lambda>e. el_id e = i) (\<lambda>e. e\<lparr>checked := True\<rparr>) (map g doc)"
    using t by (simp add: set_checked_def g_def)
  have u: "\<forall>e \<in> set (map g doc). \<not> matches_checked e"
  proof -
    have "\<not> matches_checked (g e)" if e: "e \<in> set doc" for e
    proof (cases "matches_checked e")
      case True
      then have k: "(el_kind e = Radio \<or> el_kind e = Checkbox) \<and> el_name e = ''shippingMethod''"
        by (simp add: matches_checked_def)
      with g e have "el_kind e = Radio \<and> form_owner e = form_owner t"
        unfolding one_group_def by blast
      with k g have "same_group t e"
        by (simp add: same_group_def one_group_def)
      then have "g e = e\<lparr>checked := False\<rparr>" by (simp add: g_def)
      then show ?thesis by (simp add: matches_checked_def)
    next
      case False
      then show ?thesis by (simp add: g_def matches_checked_def)
    qed
    then show ?thesis by simp
  qed
  have id: "el_id (g e) = el_id e" for e by (simp add: g_def)
  have f: "find (\<lambda>e. el_id e = i) (map g doc) = Some (g t)"
    using getElementById_map[of g i doc, OF id] t by (simp add: getElementById_def)
  have gt: "g t = t\<lparr>checked := False\<rparr>"
    using g by (simp add: g_def same_group_def one_group_def)
  have n: "matches_checked ((g t)\<lparr>checked := True\<rparr>)"
    using g unfolding gt by (simp add: one_group_def matches_checked_def)
  have "selected_shippingMethod (set_checked i doc) = Some ((g t)\<lparr>checked := True\<rparr>)"
    unfolding sc selected_shippingMethod_def using u f n by (rule selected_after_check)
  then show ?thesis by (simp add: gt)
qed

lemma recompute_totals:
  assumes "recompute JSON_stringify s doc store = (doc', totals', store')"
  shows "doc' = enforceFreeShippingRule s doc"
    and "totals' = \<lparr>subtotal = s, taxes = num_mul s TAX_RATE,
                    shippingCost = getSelectedShippingCost doc',
                    total_v = num_add (num_add s (num_mul s TAX_RATE)) (getSelectedShippingCost doc')\<rparr>"
    and "store' = store(''cpa_totals'' \<mapsto> JSON_stringify totals')"
proof -
  note a = assms[unfolded recompute_def Let_def prod.inject]
  note e = conjunct1[OF a] conjunct1[OF conjunct2[OF a]] conjunct2[OF conjunct2[OF a]]
  show "doc' = enforceFreeShippingRule s doc" by (rule e(1)[symmetric])
  have "totals' = ship_calculateTotals s (getSelectedShippingCost doc')"
    using e(2) unfolding e(1) by (rule sym)
  then show "totals' = \<lparr>subtotal = s, taxes = num_mul s TAX_RATE,
                    shippingCost = getSelectedShippingCost doc',
                    total_v = num_add (num_add s (num_mul s TAX_RATE)) (getSelectedShippingCost doc')\<rparr>"
    by (simp only: ship_calculateTotals_def Let_def)
  have "store' = saveToStorage JSON_stringify store STORAGE_KEYS_totals totals'"
    using e(3) unfolding e(2) by (rule sym)
  then show "store' = store(''cpa_totals'' \<mapsto> JSON_stringify totals')"
    by (simp only: saveToStorage_def STORAGE_KEYS_totals_def)
qed

lemma shipping_cost_examples:
  "Number_of (Some ''0'') = Fin 0" "Number_of (Some ''25'') = Fin 25"
  by code_simp+

lemma total_examples:
  "num_mul (Fin 600) TAX_RATE = Fin 13"
  "num_add (num_add (Fin 600) (Fin 13)) (Fin 25) = Fin 638"
  "num_add (num_add (Fin 601) (num_mul (Fin 601) TAX_RATE)) (Fin 0)
     = Fin (5400991697651193 / 8796093022208)"
  by code_simp+

text \<open>
  C2. On the shipping page, with the two radio buttons present, the free shipping rule
  applies exactly when the subtotal is greater than 600. In every case the totals that
  \<open>recompute\<close> saves under \<open>cpa_totals\<close> have the subtotal of the page, the taxes as the
  subtotal times \<open>TAX_RATE\<close>, and the total as subtotal plus taxes plus the shipping cost.
  For a subtotal above 600, \<open>recompute\<close> leaves the free option checked and the other
  option disabled; and when the inputs named \<open>shippingMethod\<close> that can be checked are
  the radio buttons of the group of the free option, the selected option is the free one
  and its cost is the shipping cost of the totals. For a subtotal of at most 600, 600
  itself included, the other option is enabled, no selection is changed, and the cost of
  the selected option is the shipping cost of the totals.
\<close>

theorem free_shipping_rule:
  assumes free: "getElementById ''shipFree'' doc = Some free"
      and nxt: "getElementById ''shipNext'' doc = Some nxt"
      and rc: "recompute JSON_stringify (Fin x) doc store = (doc', totals', store')"
  shows "subtotal totals' = Fin x
       \<and> taxes totals' = num_mul (Fin x) TAX_RATE
       \<and> total_v totals' = num_add (num_add (Fin x) (num_mul (Fin x) TAX_RATE)) (shippingCost totals')
       \<and> store' = store(''cpa_totals'' \<mapsto> JSON_stringify totals')
       \<and> (600 < x \<longrightarrow>
            (\<exists>f n. getElementById ''shipFree'' doc' = Some f \<and> checked f
                  \<and> getElementById ''shipNext'' doc' = Some n \<and> disabled n))
       \<and> (600 < x \<and> one_group free doc \<and> Number_of (data_ship_cost free) = Fin c
          \<longrightarrow> map_option data_ship_cost (selected_shippingMethod doc') = Some (data_ship_cost free)
              \<and> shippingCost totals' = Fin c
              \<and> total_v totals' = num_add (num_add (Fin x) (num_mul (Fin x) TAX_RATE)) (Fin c))
       \<and> (x \<le> 600 \<longrightarrow>
            (\<exists>n. getElementById ''shipNext'' doc' = Some n \<and> \<not> disabled n)
            \<and> map checked doc' = map checked doc
            \<and> (\<forall>sel. selected_shippingMethod doc = Some sel
                       \<and> Number_of (data_ship_cost sel) = Fin c
                   \<longrightarrow> map_option data_ship_cost (selected_shippingMethod doc') = Some (data_ship_cost sel)
                       \<and> shippingCost totals' = Fin c
                       \<and> total_v totals' = num_add (num_add (Fin x) (num_mul (Fin x) TAX_RATE)) (Fin c)))"
proof -
  note r = recompute_totals[OF rc]
  have t: "subtotal totals' = Fin x" "taxes totals' = num_mul (Fin x) TAX_RATE"
      "shippingCost totals' = getSelectedShippingCost doc'"
      "total_v totals' = num_add (num_add (Fin x) (num_mul (Fin x) TAX_RATE)) (shippingCost totals')"
    by (simp_all add: r(2))
  have cost: "getSelectedShippingCost d = Fin c"
    if "map_option data_ship_cost (selected_shippingMethod d) = Some raw" "Number_of raw = Fin c" for d raw
    using that by (auto simp: getSelectedShippingCost_def Let_def)
  show ?thesis
  proof (cases "600 < x")
    case True
    then have d: "doc' = set_disabled ''shipNext'' True (set_checked ''shipFree'' doc)"
      unfolding r(1) by (simp add: enforceFreeShippingRule_def Let_def num_gt_def)
    obtain f where f: "getElementById ''shipFree'' (set_checked ''shipFree'' doc) = Some f" "checked f"
      using getElementById_set_checked_any[OF free free] by blast
    obtain n where n: "getElementById ''shipNext'' (set_checked ''shipFree'' doc) = Some n"
      using getElementById_set_checked_any[OF free nxt] by blast
    have 1: "getElementById ''shipFree'' doc' = Some f"
      unfolding d set_disabled_def using f by (simp add: getElementById_update_first)
    have 2: "getElementById ''shipNext'' doc' = Some (n\<lparr>disabled := True\<rparr>)"
      unfolding d set_disabled_def using n by (simp add: getElementById_update_first)
    have 12: "\<exists>f n. getElementById ''shipFree'' doc' = Some f \<and> checked f
                  \<and> getElementById ''shipNext'' doc' = Some n \<and> disabled n"
      using 1 2 f(2) by simp
    have 3: "map_option data_ship_cost (selected_shippingMethod doc') = Some (data_ship_cost free)
              \<and> shippingCost totals' = Fin c
              \<and> total_v totals' = num_add (num_add (Fin x) (num_mul (Fin x) TAX_RATE)) (Fin c)"
      if g: "one_group free doc" and c: "Number_of (data_ship_cost free) = Fin c"
    proof -
      have s: "map_option data_ship_cost (selected_shippingMethod doc') = Some (data_ship_cost free)"
        unfolding d selected_set_disabled using free g by (rule selected_set_checked)
      have "shippingCost totals' = Fin c"
        unfolding t(3) using s c by (rule cost)
      with s t(4) show ?thesis by simp
    qed
    from True t r(3) 12 3 show ?thesis by simp
  next
    case False
    then have d: "doc' = set_disabled ''shipNext'' False doc"
      unfolding r(1) by (simp add: enforceFreeShippingRule_def Let_def num_gt_def)
    have 1: "getElementById ''shipNext'' doc' = Some (nxt\<lparr>disabled := False\<rparr>)"
      unfolding d set_disabled_def using nxt by (simp add: getElementById_update_first)
    have 2: "map checked doc' = map checked doc"
      unfolding d by (rule map_checked_set_disabled)
    have 3: "map_option data_ship_cost (selected_shippingMethod doc') = Some (data_ship_cost sel)
              \<and> shippingCost totals' = Fin c
              \<and> total_v totals' = num_add (num_add (Fin x) (num_mul (Fin x) TAX_RATE)) (Fin c)"
      if s0: "selected_shippingMethod doc = Some sel" and c: "Number_of (data_ship_cost sel) = Fin c" for sel
    proof -
      have s: "map_option data_ship_cost (selected_shippingMethod doc') = Some (data_ship_cost sel)"
        unfolding d selected_set_disabled using s0 by simp
      have "shippingCost totals' = Fin c"
        unfolding t(3) using s c by (rule cost)
      with s t(4) show ?thesis by simp
    qed
    from False t r(3) 1 2 3 show ?thesis by simp
  qed
qed

lemma page_subtotal_finite: "\<exists>x. page_subtotal storedTotals content = Fin x"
proof -
  have f: "\<exists>x. fallbackSubtotal content = Fin x"
    using parseCurrency_nonneg[of content] unfolding fallbackSubtotal_def by auto
  have i: "isFinite v \<Longrightarrow> \<exists>x. v = Fin x" for v by (cases v) simp_all
  show ?thesis
    using f i
    by (auto simp: page_subtotal_def split: json.splits option.splits)
qed

theorem free_shipping_rule_witness:
  "(\<exists>f n. getElementById ''shipFree'' (fst (recompute (\<lambda>t. ''{}'') (Fin 601)
               [\<lparr>el_id = ''shipFree'', el_kind = Radio,
                 el_name = ''shippingMethod'', form_owner = Some ''shippingForm'',
                 checked = False, disabled = False, data_ship_cost = Some ''0'',
                 textContent = []\<rparr>,
                \<lparr>el_id = ''shipNext'', el_kind = Radio,
                 el_name = ''shippingMethod'', form_owner = Some ''shippingForm'',
                 checked = True, disabled = False, data_ship_cost = Some ''25'',
                 textContent = []\<rparr>] Map.empty)) = Some f
          \<and> checked f
          \<and> getElementById ''shipNext'' (fst (recompute (\<lambda>t. ''{}'') (Fin 601)
               [\<lparr>el_id = ''shipFree'', el_kind = Radio,
                 el_name = ''shippingMethod'', form_owner = Some ''shippingForm'',
                 checked = False, disabled = False, data_ship_cost = Some ''0'',
                 textContent = []\<rparr>,
                \<lparr>el_id = ''shipNext'', el_kind = Radio,
                 el_name = ''shippingMethod'', form_owner = Some ''shippingForm'',
                 checked = True, disabled = False, data_ship_cost = Some ''25'',
                 textContent = []\<rparr>] Map.empty)) = Some n
          \<and> disabled n)
   \<and> shippingCost (fst (snd (recompute (\<lambda>t. ''{}'') (Fin 601)
               [\<lparr>el_id = ''shipFree'', el_kind = Radio,
                 el_name = ''shippingMethod'', form_owner = Some ''shippingForm'',
                 checked = False, disabled = False, data_ship_cost = Some ''0'',
                 textContent = []\<rparr>,
                \<lparr>el_id = ''shipNext'', el_kind = Radio,
                 el_name = ''shippingMethod'', form_owner = Some ''shippingForm'',
                 checked = True, disabled = False, data_ship_cost = Some ''25'',
                 textContent = []\<rparr>] Map.empty))) = Fin 0
   \<and> total_v (fst (snd (recompute (\<lambda>t. ''{}'') (Fin 601)
               [\<lparr>el_id = ''shipFree'', el_kind = Radio,
                 el_name = ''shippingMethod'', form_owner = Some ''shippingForm'',
                 checked = False, disabled = False, data_ship_cost = Some ''0'',
                 textContent = []\<rparr>,
                \<lparr>el_id = ''shipNext'', el_kind = Radio,
                 el_name = ''shippingMethod'', form_owner = Some ''shippingForm'',
                 checked = True, disabled = False, data_ship_cost = Some ''25'',
                 textContent = []\<rparr>] Map.empty))) = Fin (5400991697651193 / 8796093022208)
   \<and> (\<exists>n. getElementById ''shipNext'' (fst (recompute (\<lambda>t. ''{}'') (Fin 600)
               [\<lparr>el_id = ''shipFree'', el_kind = Radio,
                 el_name = ''shippingMethod'', form_owner = Some ''shippingForm'',
                 checked = False, disabled = False, data_ship_cost = Some ''0'',
                 textContent = []\<rparr>,
                \<lparr>el_id = ''shipNext'', el_kind = Radio,
                 el_name = ''shippingMethod'', form_owner = Some ''shippingForm'',
                 checked = True, disabled = True, data_ship_cost = Some ''25'',
                 textContent = []\<rparr>] Map.empty)) = Some n
          \<and> \<not> disabled n)
   \<and> shippingCost (fst (snd (recompute (\<lambda>t. ''{}'') (Fin 600)
               [\<lparr>el_id = ''shipFree'', el_kind = Radio,
                 el_name = ''shippingMethod'', form_owner = Some ''shippingForm'',
                 checked = False, disabled = False, data_ship_cost = Some ''0'',
                 textContent = []\<rparr>,
                \<lparr>el_id = ''shipNext'', el_kind = Radio,
                 el_name = ''shippingMethod'', form_owner = Some ''shippingForm'',
                 checked = True, disabled = True, data_ship_cost = Some ''25'',
                 textContent = []\<rparr>] Map.empty))) = Fin 25
   \<and> taxes (fst (snd (recompute (\<lambda>t. ''{}'') (Fin 600)
               [\<lparr>el_id = ''shipFree'', el_kind = Radio,
                 el_name = ''shippingMethod'', form_owner = Some ''shippingForm'',
                 checked = False, disabled = False, data_ship_cost = Some ''0'',
                 textContent = []\<rparr>,
                \<lparr>el_id = ''shipNext'', el_kind = Radio,
                 el_name = ''shippingMethod'', form_owner = Some ''shippingForm'',
                 checked = True, disabled = True, data_ship_cost = Some ''25'',
                 textContent = []\<rparr>] Map.empty))) = Fin 13
   \<and> total_v (fst (snd (recompute (\<lambda>t. ''{}'') (Fin 600)
               [\<lparr>el_id = ''shipFree'', el_kind = Radio,
                 el_name = ''shippingMethod'', form_owner = Some ''shippingForm'',
                 checked = False, disabled = False, data_ship_cost = Some ''0'',
                 textContent = []\<rparr>,
                \<lparr>el_id = ''shipNext'', el_kind = Radio,
                 el_name = ''shippingMethod'', form_owner = Some ''shippingForm'',
                 checked = True, disabled = True, data_ship_cost = Some ''25'',
                 textContent = []\<rparr>] Map.empty))) = Fin 638
   \<and> snd (snd (recompute (\<lambda>t. ''{}'') (Fin 600)
               [\<lparr>el_id = ''shipFree'', el_kind = Radio,
                 el_name = ''shippingMethod'', form_owner = Some ''shippingForm'',
                 checked = False, disabled = False, data_ship_cost = Some ''0'',
                 textContent = []\<rparr>,
                \<lparr>el_id = ''shipNext'', el_kind = Radio,
                 el_name = ''shippingMethod'', form_owner = Some ''shippingForm'',
                 checked = True, disabled = True, data_ship_cost = Some ''25'',
                 textContent = []\<rparr>] Map.empty)) ''cpa_totals'' = Some ''{}''"
proof -
  define free where "free = \<lparr>el_id = ''shipFree'', el_kind = Radio, el_name = ''shippingMethod'', form_owner = Some ''shippingForm'', checked = False, disabled = False, data_ship_cost = Some ''0'', textContent = []\<rparr>"
  define nxt where "nxt = \<lparr>el_id = ''shipNext'', el_kind = Radio, el_name = ''shippingMethod'', form_owner = Some ''shippingForm'', checked = True, disabled = False, data_ship_cost = Some ''25'', textContent = []\<rparr>"
  define nxt' where "nxt' = nxt\<lparr>disabled := True\<rparr>"
  have a: "getElementById ''shipFree'' [free, nxt] = Some free"
          "getElementById ''shipNext'' [free, nxt] = Some nxt"
          "getElementById ''shipFree'' [free, nxt'] = Some free"
          "getElementById ''shipNext'' [free, nxt'] = Some nxt'"
    by (simp_all add: getElementById_def free_def nxt_def nxt'_def)
  have s: "selected_shippingMethod [free, nxt'] = Some nxt'"
    by (simp add: selected_shippingMethod_def matches_checked_def free_def nxt_def nxt'_def)
  have g: "one_group free [free, nxt]"
    by (simp add: one_group_def free_def nxt_def)
  have b: "Number_of (data_ship_cost free) = Fin 0" "Number_of (data_ship_cost nxt') = Fin 25"
    by (simp_all add: free_def nxt_def nxt'_def shipping_cost_examples)
  obtain d1 t1 s1 where r1: "recompute (\<lambda>t. ''{}'') (Fin 601) [free, nxt] Map.empty = (d1, t1, s1)"
    by (rule prod_cases3)
  obtain d2 t2 s2 where r2: "recompute (\<lambda>t. ''{}'') (Fin 600) [free, nxt'] Map.empty = (d2, t2, s2)"
    by (rule prod_cases3)
  have "(\<exists>f n. getElementById ''shipFree'' d1 = Some f \<and> checked f
            \<and> getElementById ''shipNext'' d1 = Some n \<and> disabled n)
        \<and> shippingCost t1 = Fin 0
        \<and> total_v t1 = Fin (5400991697651193 / 8796093022208)"
    using free_shipping_rule[OF a(1) a(2) r1, of 0] g b(1)
    by (simp add: total_examples del: num_add.simps num_mul.simps)
  moreover have "(\<exists>n. getElementById ''shipNext'' d2 = Some n \<and> \<not> disabled n)
        \<and> shippingCost t2 = Fin 25 \<and> taxes t2 = Fin 13 \<and> total_v t2 = Fin 638
        \<and> s2 ''cpa_totals'' = Some ''{}''"
    using free_shipping_rule[OF a(3) a(4) r2, of 25] s b(2)
    by (simp add: total_examples del: num_add.simps num_mul.simps)
  ultimately show ?thesis
    using r1 r2 unfolding free_def nxt_def nxt'_def by simp
qed

text \<open>
  The group of a radio button is that of its form: with the other option first on the
  page, checked, and owned by another form, checking the free option leaves it checked,
  and its cost is the one of the totals.
\<close>

lemma other_form_example:
  "shippingCost (fst (snd (recompute JSON_stringify (Fin 700)
     [\<lparr>el_id = ''shipNext'', el_kind = Radio, el_name = ''shippingMethod'', form_owner = Some ''b'',
        checked = True, disabled = False, data_ship_cost = Some ''25'', textContent = []\<rparr>,
      \<lparr>el_id = ''shipFree'', el_kind = Radio, el_name = ''shippingMethod'', form_owner = Some ''a'',
        checked = False, disabled = False, data_ship_cost = Some ''0'', textContent = []\<rparr>]
     store))) = Fin 25"
  by (simp add: recompute_def enforceFreeShippingRule_def Let_def num_gt_def set_checked_def
      set_disabled_def getElementById_def same_group_def ship_calculateTotals_def
      getSelectedShippingCost_def selected_shippingMethod_def matches_checked_def
      shipping_cost_examples)

end
